theory Spec2Isabelle
  imports Main "HOL-Library.Word" "HOL-Library.Log_Nat"
begin

section \<open>Number values\<close>

text \<open>
  The functions of \<^verbatim>\<open>src/index.js\<close> compute with ECMAScript Number values, which are
  IEEE 754 binary64 floating point numbers: a sign bit, an 11-bit biased exponent and a
  52-bit fraction. Exponent 2047 holds the infinities (fraction 0) and NaN (any other
  fraction), exponent 0 the zeros and the subnormal numbers.
\<close>

datatype double = Double (sign: bool) (expo: "11 word") (mant: "52 word")

definition is_nan :: "double \<Rightarrow> bool" where
  "is_nan d = (expo d = 2047 \<and> mant d \<noteq> 0)"

definition is_inf :: "double \<Rightarrow> bool" where
  "is_inf d = (expo d = 2047 \<and> mant d = 0)"

definition is_zero :: "double \<Rightarrow> bool" where
  "is_zero d = (expo d = 0 \<and> mant d = 0)"

definition NaN :: double where
  "NaN = Double False 2047 (2 ^ 51)"

definition Infinity :: "bool \<Rightarrow> double" where
  "Infinity s = Double s 2047 0"

definition Zero :: "bool \<Rightarrow> double" where
  "Zero s = Double s 0 0"

text \<open>
  Every finite double is a whole multiple of 2 to the power -1074, the smallest subnormal
  number. \<open>units d\<close> is the magnitude of \<open>d\<close> counted in that unit, \<open>sunits d\<close> the
  signed value, and \<open>mag d\<close> the 63 bits below the sign read as one integer (which
  orders the magnitudes of all doubles that are not NaN).
\<close>

definition units :: "double \<Rightarrow> int" where
  "units d = (if expo d = 0 then uint (mant d)
              else (2 ^ 52 + uint (mant d)) * 2 ^ (unat (expo d) - 1))"

definition sunits :: "double \<Rightarrow> int" where
  "sunits d = (if sign d then - units d else units d)"

definition mag :: "double \<Rightarrow> int" where
  "mag d = uint (expo d) * 2 ^ 52 + uint (mant d)"

text \<open>
  Rounding to nearest, ties to even. \<open>round_units sg j k\<close> is the double of sign \<open>sg\<close>
  nearest to the exact magnitude \<open>k / 2\<^sup>j\<close> units: the magnitude is cut to at most 53
  significant bits, never below the unit (\<open>shift_of\<close>), the quotient is rounded half
  to even, and exponent and fraction are packed, a carry out of the fraction moving
  to the next exponent and an exponent of 2047 or more giving infinity.
\<close>

definition pack :: "bool \<Rightarrow> int \<Rightarrow> double" where
  "pack sg n =
     (if 2047 * 2 ^ 52 \<le> n then Infinity sg
      else Double sg (word_of_int (n div 2 ^ 52)) (word_of_int (n mod 2 ^ 52)))"

definition shift_of :: "nat \<Rightarrow> int \<Rightarrow> nat" where
  "shift_of j k = max j (nat (bitlen k - 53))"

definition round_half_even :: "int \<Rightarrow> nat \<Rightarrow> int" where
  "round_half_even k s =
     (let q = k div 2 ^ s; r = k mod 2 ^ s
      in if 2 ^ s < 2 * r \<or> (2 * r = 2 ^ s \<and> odd q) then q + 1 else q)"

definition round_units :: "bool \<Rightarrow> nat \<Rightarrow> int \<Rightarrow> double" where
  "round_units sg j k =
     (let s = shift_of j k
      in pack sg (int (s - j) * 2 ^ 52 + round_half_even k s))"

text \<open>
  The operators the source applies to Numbers: \<^verbatim>\<open>a + b\<close>, unary minus, \<^verbatim>\<open>a - b\<close>
  (defined by the language as \<^verbatim>\<open>a + (-b)\<close>), \<^verbatim>\<open>a * b\<close>, \<^verbatim>\<open>a < b\<close> and \<^verbatim>\<open>a === b\<close>.
  A sum of zero is \<open>-0\<close> only when both operands are \<open>-0\<close>; the sign of a product is
  the exclusive or of the signs; NaN compares unequal to everything, itself included,
  and the two zeros compare equal.
\<close>

definition num_add :: "double \<Rightarrow> double \<Rightarrow> double" where
  "num_add a b =
     (if is_nan a \<or> is_nan b then NaN
      else if is_inf a then (if is_inf b \<and> sign a \<noteq> sign b then NaN else a)
      else if is_inf b then b
      else let k = sunits a + sunits b
           in if k = 0 then Zero (sign a \<and> sign b)
              else round_units (k < 0) 0 \<bar>k\<bar>)"

definition num_neg :: "double \<Rightarrow> double" where
  "num_neg a = (if is_nan a then NaN else Double (\<not> sign a) (expo a) (mant a))"

definition num_sub :: "double \<Rightarrow> double \<Rightarrow> double" where
  "num_sub a b = num_add a (num_neg b)"

definition num_mul :: "double \<Rightarrow> double \<Rightarrow> double" where
  "num_mul a b =
     (if is_nan a \<or> is_nan b then NaN
      else if is_inf a \<or> is_inf b then
        (if is_zero a \<or> is_zero b then NaN else Infinity (sign a \<noteq> sign b))
      else round_units (sign a \<noteq> sign b) 1074 (units a * units b))"

definition num_lt :: "double \<Rightarrow> double \<Rightarrow> bool" where
  "num_lt a b = (\<not> is_nan a \<and> \<not> is_nan b \<and>
     (if sign a then - mag a else mag a) < (if sign b then - mag b else mag b))"

definition num_eq :: "double \<Rightarrow> double \<Rightarrow> bool" where
  "num_eq a b = (\<not> is_nan a \<and> \<not> is_nan b \<and> (a = b \<or> (is_zero a \<and> is_zero b)))"

text \<open>
  An integer literal denotes the double nearest to it; \<open>int_value\<close> reads the exact
  integer a double holds, if it holds one.
\<close>

definition num_of_int :: "int \<Rightarrow> double" where
  "num_of_int i = round_units (i < 0) 0 (\<bar>i\<bar> * 2 ^ 1074)"

definition int_value :: "double \<Rightarrow> int option" where
  "int_value d =
     (if expo d \<noteq> 2047 \<and> 2 ^ 1074 dvd units d
      then Some ((if sign d then - 1 else 1) * (units d div 2 ^ 1074))
      else None)"

text \<open>
  The Numbers on which the recursion of \<^verbatim>\<open>factorial\<close> stays: zero, the positive whole
  numbers and \<open>+Infinity\<close>.
\<close>

definition nonneg_whole :: "double \<Rightarrow> bool" where
  "nonneg_whole d = (\<not> is_nan d \<and> (sign d \<longrightarrow> is_zero d) \<and> (is_inf d \<or> 2 ^ 1074 dvd units d))"


section \<open>Values, objects and property lookup\<close>

text \<open>
  What a call can end by throwing: the \<^verbatim>\<open>Error\<close> thrown by \<^verbatim>\<open>factorial\<close> itself, the
  \<^verbatim>\<open>TypeError\<close> of the language's conversions and member accesses, and the
  \<^verbatim>\<open>RangeError\<close> an engine throws when a call finds the call stack full, each with
  its message. A getter, a Proxy trap or a conversion method can throw any of them,
  and any other value, which \<open>Thrown\<close> stands for with a description of the value.
\<close>

datatype jserror = Error string | TypeError string | RangeError string | Thrown string

text \<open>
  Property keys are strings or symbols. The values \<^verbatim>\<open>getValueOrDefault\<close> and
  \<^verbatim>\<open>getNestedProperty\<close> receive are the primitives, and objects. An ordinary object is
  its own properties, in a table keyed by property key, its prototype link, and the
  behaviour of a call when the object is a function. An own property is a data
  property holding a value, an accessor property with a getter, or an accessor
  property without one. A Proxy answers every read through its \<^verbatim>\<open>get\<close> trap.

  Getters, traps and functions are code of the caller of \<^verbatim>\<open>index.js\<close>: each is running
  against the state \<open>'s\<close> of the program (its variables and heap), may change it, and
  ends by throwing or by returning a value. A getter or trap stands for its behaviour
  with the receiver of the read it serves, and a function for its behaviour with the
  receiver and arguments of the one call the conversions below make of it.
\<close>

datatype pkey = KStr string | KSym string

datatype 's jsval =
    JUndefined | JNull | JBool bool | JNum double | JBigInt int | JStr string | JSym string
  | JObj "'s jsobj"
  and 's jsobj =
    Object "(pkey \<times> 's jsslot) list" "'s jsobj option"
      "('s \<Rightarrow> (jserror + 's jsval) \<times> 's) option"
  | Proxy "pkey \<Rightarrow> 's \<Rightarrow> (jserror + 's jsval) \<times> 's"
      "('s \<Rightarrow> (jserror + 's jsval) \<times> 's) option"
  and 's jsslot =
    Data "'s jsval" | Getter "'s \<Rightarrow> (jserror + 's jsval) \<times> 's" | NoGetter

text \<open>
  A computation takes the program state and gives a completion, thrown error or
  returned value, with the state it leaves. \<open>and_then\<close> runs a second computation on
  the value a first one returns, from the state it leaves; an error ends the sequence.
\<close>

type_synonym ('s, 'a) effect = "'s \<Rightarrow> (jserror + 'a) \<times> 's"

definition returns :: "'a \<Rightarrow> ('s, 'a) effect" where
  "returns x = (\<lambda>s. (Inr x, s))"

definition throws :: "jserror \<Rightarrow> ('s, 'a) effect" where
  "throws e = (\<lambda>s. (Inl e, s))"

definition and_then :: "('s, 'a) effect \<Rightarrow> ('a \<Rightarrow> ('s, 'b) effect) \<Rightarrow> ('s, 'b) effect" where
  "and_then m f = (\<lambda>s. case m s of (Inl e, s') \<Rightarrow> (Inl e, s') | (Inr x, s') \<Rightarrow> f x s')"

text \<open>
  Reading a property of a primitive looks in the prototype object of its wrapper
  (\<^verbatim>\<open>String.prototype\<close>, \<^verbatim>\<open>Number.prototype\<close>, ...). These objects belong to the
  running program, not to \<^verbatim>\<open>src/index.js\<close>, and a program can change them, so they
  are a parameter; so is the conversion of a Number that is not a whole number below
  \<open>10\<^sup>2\<^sup>1\<close> to its string, which no claim depends on.
\<close>

record 's realm =
  StringPrototype :: "'s jsobj"
  NumberPrototype :: "'s jsobj"
  BooleanPrototype :: "'s jsobj"
  SymbolPrototype :: "'s jsobj"
  BigIntPrototype :: "'s jsobj"
  FractionToString :: "double \<Rightarrow> string"

definition nullish :: "'s jsval \<Rightarrow> bool" where
  "nullish v = (case v of JUndefined \<Rightarrow> True | JNull \<Rightarrow> True | _ \<Rightarrow> False)"

definition is_object :: "'s jsval \<Rightarrow> bool" where
  "is_object v = (case v of JObj ob \<Rightarrow> True | _ \<Rightarrow> False)"

text \<open>
  A string has the own properties \<^verbatim>\<open>length\<close> and one per index, named by the decimal
  numeral of the index.
\<close>

definition digit_char :: "nat \<Rightarrow> char" where
  "digit_char d = ''0123456789'' ! d"

fun digits :: "nat \<Rightarrow> string" where
  "digits n = (if n < 10 then [digit_char n] else digits (n div 10) @ [digit_char (n mod 10)])"

definition int_digits :: "int \<Rightarrow> string" where
  "int_digits i = (if i < 0 then CHR ''-'' # digits (nat (- i)) else digits (nat i))"

definition string_props :: "string \<Rightarrow> (pkey \<times> 's jsslot) list" where
  "string_props s =
     (KStr ''length'', Data (JNum (num_of_int (int (length s))))) #
     map (\<lambda>i. (KStr (digits i), Data (JStr [s ! i]))) [0..<length s]"

text \<open>
  The object a member access reads through: none for \<^verbatim>\<open>undefined\<close> and \<^verbatim>\<open>null\<close>, the
  wrapper for a primitive, the object itself otherwise.
\<close>

definition ToObject :: "'s realm \<Rightarrow> 's jsval \<Rightarrow> 's jsobj option" where
  "ToObject R v =
     (case v of
        JUndefined \<Rightarrow> None
      | JNull \<Rightarrow> None
      | JBool b \<Rightarrow> Some (Object [] (Some (BooleanPrototype R)) None)
      | JNum d \<Rightarrow> Some (Object [] (Some (NumberPrototype R)) None)
      | JBigInt i \<Rightarrow> Some (Object [] (Some (BigIntPrototype R)) None)
      | JStr s \<Rightarrow> Some (Object (string_props s) (Some (StringPrototype R)) None)
      | JSym n \<Rightarrow> Some (Object [] (Some (SymbolPrototype R)) None)
      | JObj ob \<Rightarrow> Some ob)"

text \<open>
  What a read of key \<open>k\<close> finds in an object: the own property under \<open>k\<close>, else what
  the prototype has, and nothing at the end of the chain; a Proxy met on the way
  answers with its trap.
\<close>

datatype 's found = NoEntry | Entry "'s jsslot" | Trap "'s \<Rightarrow> (jserror + 's jsval) \<times> 's"

fun obj_entry :: "'s jsobj \<Rightarrow> pkey \<Rightarrow> 's found" where
  "obj_entry (Proxy t c) k = Trap (t k)"
| "obj_entry (Object ps pr c) k =
     (case map_of ps k of
        Some sl \<Rightarrow> Entry sl
      | None \<Rightarrow> (case pr of None \<Rightarrow> NoEntry | Some p \<Rightarrow> obj_entry p k))"

text \<open>
  The value of what was found: \<^verbatim>\<open>undefined\<close> when there is no property or an accessor
  without getter, the value of a data property, and whatever running the getter or
  the trap gives.
\<close>

definition read_found :: "'s found \<Rightarrow> ('s, 's jsval) effect" where
  "read_found f =
     (case f of
        NoEntry \<Rightarrow> returns JUndefined
      | Entry (Data x) \<Rightarrow> returns x
      | Entry (Getter g) \<Rightarrow> g
      | Entry NoGetter \<Rightarrow> returns JUndefined
      | Trap t \<Rightarrow> t)"

text \<open>
  The member access \<^verbatim>\<open>v[k]\<close> for a key \<open>k\<close>: a TypeError on \<^verbatim>\<open>undefined\<close> and \<^verbatim>\<open>null\<close>,
  else the read of \<open>k\<close> through the object of \<open>v\<close>.
\<close>

definition GetV :: "'s realm \<Rightarrow> 's jsval \<Rightarrow> pkey \<Rightarrow> ('s, 's jsval) effect" where
  "GetV R v k =
     (case ToObject R v of
        None \<Rightarrow> throws (TypeError ''Cannot read properties of undefined or null'')
      | Some ob \<Rightarrow> read_found (obj_entry ob k))"

text \<open>
  The conversion of the expression in \<^verbatim>\<open>[prop]\<close> to a property key. A primitive
  converts directly. An object is first converted to a primitive: by its
  \<^verbatim>\<open>Symbol.toPrimitive\<close> method when it has one, else by the first of its \<^verbatim>\<open>toString\<close>
  and \<^verbatim>\<open>valueOf\<close> methods that is callable and returns a primitive; a TypeError when
  none does. Reading and calling these methods runs the caller's code.
\<close>

definition callee :: "'s jsval \<Rightarrow> ('s, 's jsval) effect option" where
  "callee v = (case v of JObj (Object ps pr c) \<Rightarrow> c | JObj (Proxy t c) \<Rightarrow> c | _ \<Rightarrow> None)"

definition call_for_primitive :: "'s jsval \<Rightarrow> ('s, 's jsval) effect \<Rightarrow> ('s, 's jsval) effect" where
  "call_for_primitive m otherwise =
     (case callee m of
        None \<Rightarrow> otherwise
      | Some c \<Rightarrow> and_then c (\<lambda>r. if is_object r then otherwise else returns r))"

definition OrdinaryToPrimitive :: "'s realm \<Rightarrow> 's jsval \<Rightarrow> ('s, 's jsval) effect" where
  "OrdinaryToPrimitive R v =
     and_then (GetV R v (KStr ''toString'')) (\<lambda>m.
       call_for_primitive m
         (and_then (GetV R v (KStr ''valueOf'')) (\<lambda>m.
            call_for_primitive m
              (throws (TypeError ''Cannot convert object to primitive value'')))))"

definition ToPrimitive :: "'s realm \<Rightarrow> 's jsval \<Rightarrow> ('s, 's jsval) effect" where
  "ToPrimitive R v =
     (if is_object v then
        and_then (GetV R v (KSym ''Symbol.toPrimitive'')) (\<lambda>f.
          if nullish f then OrdinaryToPrimitive R v
          else case callee f of
                 None \<Rightarrow> throws (TypeError ''Symbol.toPrimitive is not a function'')
               | Some c \<Rightarrow> and_then c (\<lambda>r.
                   if is_object r
                   then throws (TypeError ''Cannot convert object to primitive value'')
                   else returns r))
      else returns v)"

definition number_key :: "'s realm \<Rightarrow> double \<Rightarrow> string" where
  "number_key R d =
     (if is_nan d then ''NaN''
      else if is_inf d then (if sign d then ''-Infinity'' else ''Infinity'')
      else case int_value d of
             Some i \<Rightarrow> if \<bar>i\<bar> < 10 ^ 21 then int_digits i else FractionToString R d
           | None \<Rightarrow> FractionToString R d)"

definition primitive_key :: "'s realm \<Rightarrow> 's jsval \<Rightarrow> pkey" where
  "primitive_key R v =
     (case v of
        JUndefined \<Rightarrow> KStr ''undefined''
      | JNull \<Rightarrow> KStr ''null''
      | JBool b \<Rightarrow> KStr (if b then ''true'' else ''false'')
      | JNum d \<Rightarrow> KStr (number_key R d)
      | JBigInt i \<Rightarrow> KStr (int_digits i)
      | JStr s \<Rightarrow> KStr s
      | JSym n \<Rightarrow> KSym n
      | JObj ob \<Rightarrow> KStr [])"

definition ToPropertyKey :: "'s realm \<Rightarrow> 's jsval \<Rightarrow> ('s, pkey) effect" where
  "ToPropertyKey R v = and_then (ToPrimitive R v) (\<lambda>p. returns (primitive_key R p))"

text \<open>
  The same lookup, told as a search: the objects of the prototype chain in order, the
  own property of one object, and the first object of the chain that has the key.
\<close>

fun chain :: "'s jsobj \<Rightarrow> 's jsobj list" where
  "chain (Proxy t c) = [Proxy t c]"
| "chain (Object ps None c) = [Object ps None c]"
| "chain (Object ps (Some p) c) = Object ps (Some p) c # chain p"

definition own_entry :: "'s jsobj \<Rightarrow> pkey \<Rightarrow> 's found" where
  "own_entry ob k =
     (case ob of
        Proxy t c \<Rightarrow> Trap (t k)
      | Object ps pr c \<Rightarrow> (case map_of ps k of None \<Rightarrow> NoEntry | Some sl \<Rightarrow> Entry sl))"

definition has_own :: "'s jsobj \<Rightarrow> pkey \<Rightarrow> bool" where
  "has_own ob k = (case own_entry ob k of NoEntry \<Rightarrow> False | _ \<Rightarrow> True)"

definition chain_entry :: "'s jsobj \<Rightarrow> pkey \<Rightarrow> 's found" where
  "chain_entry ob k =
     (case find (\<lambda>p. has_own p k) (chain ob) of
        None \<Rightarrow> NoEntry
      | Some p \<Rightarrow> own_entry p k)"

text \<open>
  \<^verbatim>\<open>Object.prototype\<close> as the language defines it, which every object literal has as
  its prototype: the data properties \<^verbatim>\<open>constructor\<close> (the function \<^verbatim>\<open>Object\<close>) and the
  ten methods, and the accessor \<^verbatim>\<open>__proto__\<close>. A built-in function is represented by
  its name and by its behaviour when called with no arguments on an object literal;
  the getter of \<^verbatim>\<open>__proto__\<close> answers for a receiver whose prototype is
  \<^verbatim>\<open>Object.prototype\<close>.
\<close>

definition builtin :: "string \<Rightarrow> ('s, 's jsval) effect \<Rightarrow> 's jsval" where
  "builtin name behaviour = JObj (Object [(KStr ''name'', Data (JStr name))] None (Some behaviour))"

definition ObjectFunction :: "'s jsval" where
  "ObjectFunction = builtin ''Object'' (returns (JObj (Object [] None None)))"

definition object_prototype_methods :: "(pkey \<times> 's jsslot) list" where
  "object_prototype_methods =
     [(KStr ''constructor'', Data ObjectFunction),
      (KStr ''hasOwnProperty'', Data (builtin ''hasOwnProperty'' (returns (JBool False)))),
      (KStr ''isPrototypeOf'', Data (builtin ''isPrototypeOf'' (returns (JBool False)))),
      (KStr ''propertyIsEnumerable'',
         Data (builtin ''propertyIsEnumerable'' (returns (JBool False)))),
      (KStr ''toLocaleString'',
         Data (builtin ''toLocaleString'' (returns (JStr ''[object Object]'')))),
      (KStr ''toString'', Data (builtin ''toString'' (returns (JStr ''[object Object]'')))),
      (KStr ''valueOf'', Data (builtin ''valueOf'' (returns (JObj (Object [] None None))))),
      (KStr ''__defineGetter__'',
         Data (builtin ''__defineGetter__'' (throws (TypeError ''Getter must be a function'')))),
      (KStr ''__defineSetter__'',
         Data (builtin ''__defineSetter__'' (throws (TypeError ''Setter must be a function'')))),
      (KStr ''__lookupGetter__'', Data (builtin ''__lookupGetter__'' (returns JUndefined))),
      (KStr ''__lookupSetter__'', Data (builtin ''__lookupSetter__'' (returns JUndefined)))]"

definition ObjectPrototype :: "'s jsobj" where
  "ObjectPrototype =
     Object (object_prototype_methods @
             [(KStr ''__proto__'',
               Getter (returns (JObj (Object object_prototype_methods None None))))])
       None None"

text \<open>
  The object literal \<^verbatim>\<open>{k1: v1, ...}\<close>: data properties, and \<^verbatim>\<open>Object.prototype\<close> as
  prototype.
\<close>

definition literal :: "(string \<times> 's jsval) list \<Rightarrow> 's jsobj" where
  "literal ps = Object (map (\<lambda>(k, v). (KStr k, Data v)) ps) (Some ObjectPrototype) None"

text \<open>
  A realm whose wrapper prototypes have no properties of their own and inherit from
  \<^verbatim>\<open>Object.prototype\<close>, for concrete evaluations.
\<close>

definition bare_realm :: "'s realm" where
  "bare_realm =
     \<lparr>StringPrototype = Object [] (Some ObjectPrototype) None,
      NumberPrototype = Object [] (Some ObjectPrototype) None,
      BooleanPrototype = Object [] (Some ObjectPrototype) None,
      SymbolPrototype = Object [] (Some ObjectPrototype) None,
      BigIntPrototype = Object [] (Some ObjectPrototype) None,
      FractionToString = (\<lambda>d. [])\<rparr>"


section \<open>The functions of index.js\<close>

text \<open>
  \<^verbatim>\<open>export function add(a, b) { return a + b; }\<close>
  \<^verbatim>\<open>export function multiply(a, b) { return a * b; }\<close>
  on Number operands.
\<close>

definition add :: "double \<Rightarrow> double \<Rightarrow> double" where
  "add a b = num_add a b"

definition multiply :: "double \<Rightarrow> double \<Rightarrow> double" where
  "multiply a b = num_mul a b"

text \<open>
  \<^verbatim>\<open>export function factorial(n) {\<close>
  \<^verbatim>\<open>  if (n < 0) throw new Error('Factorial not defined for negative numbers');\<close>
  \<^verbatim>\<open>  if (n === 0 || n === 1) return 1;\<close>
  \<^verbatim>\<open>  return n * factorial(n - 1);\<close>
  \<^verbatim>\<open>}\<close>
  on a Number operand. Every call of a function takes a frame of the call stack, which
  is bounded, and a call that finds the stack full throws a RangeError. In
  \<open>factorial d n\<close> the call of \<^verbatim>\<open>factorial(n)\<close> has its own frame and \<open>d\<close> is the number of
  further frames the stack has room for: the body runs, and its recursive call is
  \<open>factorial (d - 1)\<close> when \<open>d > 0\<close> and throws the RangeError when \<open>d = 0\<close>. The result is
  \<open>Inl e\<close> when the call throws \<open>e\<close> and \<open>Inr v\<close> when it returns \<open>v\<close>. The operand \<open>n\<close>
  is evaluated before the recursive call, whose error propagates.
\<close>

fun factorial :: "nat \<Rightarrow> double \<Rightarrow> jserror + double" where
  "factorial 0 n =
     (if num_lt n (Zero False)
      then Inl (Error ''Factorial not defined for negative numbers'')
      else if num_eq n (Zero False) \<or> num_eq n (num_of_int 1) then Inr (num_of_int 1)
      else Inl (RangeError ''Maximum call stack size exceeded''))"
| "factorial (Suc d) n =
     (if num_lt n (Zero False)
      then Inl (Error ''Factorial not defined for negative numbers'')
      else if num_eq n (Zero False) \<or> num_eq n (num_of_int 1) then Inr (num_of_int 1)
      else case factorial d (num_sub n (num_of_int 1)) of
             Inl e \<Rightarrow> Inl e
           | Inr v \<Rightarrow> Inr (num_mul n v))"

text \<open>
  \<^verbatim>\<open>export function getValueOrDefault(value, defaultValue) { return value ?? defaultValue; }\<close>
\<close>

definition getValueOrDefault :: "'s jsval \<Rightarrow> 's jsval \<Rightarrow> 's jsval" where
  "getValueOrDefault value defaultValue = (if nullish value then defaultValue else value)"

text \<open>
  \<^verbatim>\<open>export function getNestedProperty(obj, prop) { return obj?.nested?.[prop]; }\<close>
  Each \<^verbatim>\<open>?.\<close> yields \<^verbatim>\<open>undefined\<close> for the whole chain when the value before it is
  \<^verbatim>\<open>undefined\<close> or \<^verbatim>\<open>null\<close>, and is the plain member access otherwise: the read of
  \<^verbatim>\<open>nested\<close>, then the conversion of \<open>prop\<close> to a property key, then the read of that
  key. There is no \<^verbatim>\<open>try\<close>: an error thrown on the way ends the call.
\<close>

definition getNestedProperty :: "'s realm \<Rightarrow> 's jsval \<Rightarrow> 's jsval \<Rightarrow> ('s, 's jsval) effect" where
  "getNestedProperty R obj prop =
     (if nullish obj then returns JUndefined
      else and_then (GetV R obj (KStr ''nested'')) (\<lambda>nested.
        if nullish nested then returns JUndefined
        else and_then (ToPropertyKey R prop) (\<lambda>key. GetV R nested key)))"

text \<open>
  A call of one of the five functions from a program: in a realm, with room for \<open>d\<close>
  further frames on the call stack, from a program state; it gives a completion and
  the state it leaves.
\<close>

datatype 's call =
    Add double double
  | Multiply double double
  | Factorial double
  | GetValueOrDefault "'s jsval" "'s jsval"
  | GetNestedProperty "'s jsval" "'s jsval"




text \<open>
  The objects of \<^verbatim>\<open>tests/index.test.js\<close>, \<^verbatim>\<open>{ nested: { foo: 'bar' } }\<close>, and an object
  whose getter reads and flips a variable of the program:
  \<^verbatim>\<open>let flag = false;\<close>
  \<^verbatim>\<open>const toggling = { get nested() { const r = { x: flag }; flag = !flag; return r; } };\<close>
\<close>

definition test_nested :: "'s jsobj" where
  "test_nested = literal [(''foo'', JStr ''bar'')]"

definition test_obj :: "'s jsobj" where
  "test_obj = literal [(''nested'', JObj test_nested)]"



section \<open>Packing and unpacking of exponent and fraction\<close>

lemma uint_expo_field: "0 \<le> x \<Longrightarrow> x < 2048 \<Longrightarrow> uint (word_of_int x :: 11 word) = x"
  by (simp add: uint_word_of_int take_bit_eq_mod)

lemma uint_mant_field: "0 \<le> x \<Longrightarrow> x < 2 ^ 52 \<Longrightarrow> uint (word_of_int x :: 52 word) = x"
  by (simp add: uint_word_of_int take_bit_eq_mod)

lemma expo_lt: "uint (e :: 11 word) < 2048"
  using uint_bounded [of e] by simp

lemma mant_lt: "uint (f :: 52 word) < 2 ^ 52"
  using uint_bounded [of f] by simp

lemma div_mult_add: "0 \<le> r \<Longrightarrow> r < b \<Longrightarrow> (a * b + r) div b = (a::int)"
  by (simp add: div_pos_pos_trivial)

lemma mod_mult_add: "0 \<le> r \<Longrightarrow> r < b \<Longrightarrow> (a * b + r) mod b = (r::int)"
  by (simp add: mod_pos_pos_trivial)

lemma units_nonneg: "0 \<le> units d"
  by (simp add: units_def)

lemma units_zero_iff: "units d = 0 \<longleftrightarrow> is_zero d"
proof (cases "expo d = 0")
  case True
  then show ?thesis by (simp add: units_def is_zero_def word_uint_eq_iff)
next
  case False
  have "0 < 2 ^ 52 + uint (mant d)" by (simp add: add_pos_nonneg)
  then have "(2 ^ 52 + uint (mant d)) * (2::int) ^ (unat (expo d) - 1) \<noteq> 0" by simp
  with False show ?thesis by (simp add: units_def is_zero_def)
qed

lemma sign_pack [simp]: "sign (pack sg n) = sg"
  by (simp add: pack_def Infinity_def)

lemma pack_fields:
  assumes "0 \<le> n" "n < 2047 * 2 ^ 52"
  shows "uint (expo (pack sg n)) = n div 2 ^ 52" "uint (mant (pack sg n)) = n mod 2 ^ 52"
proof -
  have "n div 2 ^ 52 < 2047" using assms by (simp add: div_less_iff_less_mult)
  moreover have "0 \<le> n div 2 ^ 52" using assms by simp
  ultimately show "uint (expo (pack sg n)) = n div 2 ^ 52"
    using assms by (simp add: pack_def uint_expo_field)
  show "uint (mant (pack sg n)) = n mod 2 ^ 52"
    using assms by (simp add: pack_def uint_mant_field)
qed

lemma pack_finite: 
  assumes "0 \<le> n" "n < 2047 * 2 ^ 52"
  shows "expo (pack sg n) \<noteq> 2047"
proof -
  have "uint (expo (pack sg n)) = n div 2 ^ 52" "n div 2 ^ 52 < 2047"
    using assms by (simp_all add: pack_fields div_less_iff_less_mult)
  then show ?thesis by auto
qed

lemma pack_not_nan: "0 \<le> n \<Longrightarrow> \<not> is_nan (pack sg n)"
proof (cases "2047 * 2 ^ 52 \<le> n")
  case True
  then show ?thesis by (simp add: pack_def Infinity_def is_nan_def)
next
  case False
  assume "0 \<le> n"
  with False have "expo (pack sg n) \<noteq> 2047" by (simp add: pack_finite)
  then show ?thesis by (simp add: is_nan_def)
qed

lemma mag_pack: "0 \<le> n \<Longrightarrow> n < 2047 * 2 ^ 52 \<Longrightarrow> mag (pack sg n) = n"
  by (simp add: mag_def pack_fields)

lemma pack_mag: "\<not> is_nan a \<Longrightarrow> pack (sign a) (mag a) = a"
proof (cases a)
  case (Double s e f)
  assume nn: "\<not> is_nan a"
  show ?thesis
  proof (cases "e = 2047")
    case True
    with nn Double have "f = 0" by (simp add: is_nan_def)
    with True Double show ?thesis by (simp add: pack_def mag_def Infinity_def)
  next
    case False
    have "uint e \<noteq> 2047" using False by (simp add: word_uint_eq_iff)
    then have "uint e < 2047" using expo_lt [of e] by simp
    then have "uint e * 2 ^ 52 + uint f < 2047 * 2 ^ 52" using mant_lt [of f] by simp
    moreover have "(uint e * 2 ^ 52 + uint f) div 2 ^ 52 = uint e" using mant_lt [of f] by simp
    moreover have "(uint e * 2 ^ 52 + uint f) mod 2 ^ 52 = uint f" using mant_lt [of f] by simp
    ultimately show ?thesis using Double by (simp add: pack_def mag_def)
  qed
qed

lemma units_pack_subnormal:
  assumes "0 \<le> q" "q < 2 ^ 52"
  shows "units (pack sg q) = q"
proof -
  have "q < 2047 * 2 ^ 52" using assms by simp
  then have "uint (expo (pack sg q)) = 0" "uint (mant (pack sg q)) = q"
    using assms by (simp_all add: pack_fields)
  then show ?thesis by (simp add: units_def word_uint_eq_iff)
qed

lemma units_pack_normal:
  assumes "0 \<le> e" "2 ^ 52 \<le> q" "q \<le> 2 ^ 53" "e * 2 ^ 52 + q < 2047 * 2 ^ 52"
  shows "units (pack sg (e * 2 ^ 52 + q)) = q * 2 ^ nat e"
proof -
  let ?n = "e * 2 ^ 52 + q"
  have n0: "0 \<le> ?n" using assms by simp
  show ?thesis
  proof (cases "q = 2 ^ 53")
    case True
    have n: "?n = (e + 2) * 2 ^ 52" using True by (simp add: algebra_simps)
    have "?n div 2 ^ 52 = e + 2" "?n mod 2 ^ 52 = 0" unfolding n by simp_all
    then have f: "uint (expo (pack sg ?n)) = e + 2" "uint (mant (pack sg ?n)) = 0"
      using pack_fields [OF n0 assms(4), of sg] by simp_all
    then have "expo (pack sg ?n) \<noteq> 0" using assms(1) by auto
    moreover have "unat (expo (pack sg ?n)) = nat (e + 2)" using f by (simp add: unat_eq_nat_uint)
    moreover have "nat (e + 2) - 1 = Suc (nat e)" using assms(1) by simp
    ultimately show ?thesis using f True by (simp add: units_def)
  next
    case False
    then have q: "q < 2 ^ 53" using assms by simp
    have n: "?n = (e + 1) * 2 ^ 52 + (q - 2 ^ 52)" by (simp add: algebra_simps)
    have r: "0 \<le> q - 2 ^ 52" "q - 2 ^ 52 < 2 ^ 52" using assms q by simp_all
    have "((e + 1) * 2 ^ 52 + (q - 2 ^ 52)) div 2 ^ 52 = e + 1"
      using r by (rule div_mult_add)
    moreover have "((e + 1) * 2 ^ 52 + (q - 2 ^ 52)) mod 2 ^ 52 = q - 2 ^ 52"
      using r by (rule mod_mult_add)
    ultimately have "?n div 2 ^ 52 = e + 1" "?n mod 2 ^ 52 = q - 2 ^ 52"
      unfolding n by blast+
    then have f: "uint (expo (pack sg ?n)) = e + 1" "uint (mant (pack sg ?n)) = q - 2 ^ 52"
      using pack_fields [OF n0 assms(4), of sg] by simp_all
    then have "expo (pack sg ?n) \<noteq> 0" using assms(1) by auto
    moreover have "unat (expo (pack sg ?n)) = nat (e + 1)" using f by (simp add: unat_eq_nat_uint)
    moreover have "nat (e + 1) - 1 = nat e" using assms(1) by simp
    ultimately show ?thesis using f by (simp add: units_def)
  qed
qed


section \<open>Properties of rounding\<close>

lemma int_div_less:
  assumes "0 < b" "k < c * b"
  shows "k div b < (c::int)"
proof (rule ccontr)
  assume "\<not> k div b < c"
  then have "c * b \<le> (k div b) * b" using assms(1) by (simp add: mult_right_mono)
  also have "\<dots> = k - k mod b" by (simp add: minus_mod_eq_div_mult)
  also have "\<dots> \<le> k" using assms(1) by simp
  finally show False using assms(2) by simp
qed

lemma rhe_exact: "2 ^ s dvd k \<Longrightarrow> round_half_even k s = k div 2 ^ s"
  by (simp add: round_half_even_def Let_def mod_eq_0_iff_dvd)

lemma rhe_bounds: "k div 2 ^ s \<le> round_half_even k s" "round_half_even k s \<le> k div 2 ^ s + 1"
  by (simp_all add: round_half_even_def Let_def)

lemma shift_ge: "j \<le> shift_of j k"
  by (simp add: shift_of_def)

lemma bitlen_le_shift: "bitlen k \<le> 53 + int (shift_of j k)"
  by (simp add: shift_of_def)

lemma shift_quot_lt:
  assumes "0 < k"
  shows "k div 2 ^ shift_of j k < 2 ^ 53"
proof -
  let ?s = "shift_of j k"
  have "k < 2 ^ nat (53 + int ?s)"
    using bitlen_le_shift [of k j] by (simp add: bitlen_le_iff_power)
  also have "nat (53 + int ?s) = 53 + ?s" by simp
  finally have "k < 2 ^ 53 * 2 ^ ?s" by (simp add: power_add)
  then show ?thesis by (intro int_div_less) simp_all
qed

lemma shift_quot_ge:
  assumes "0 < k" "j < shift_of j k"
  shows "2 ^ 52 \<le> k div 2 ^ shift_of j k"
proof -
  let ?s = "shift_of j k"
  have s: "int ?s = bitlen k - 53"
    using assms(2) by (cases "53 \<le> bitlen k") (simp_all add: shift_of_def)
  then have "int ?s + 53 \<le> bitlen k" by simp
  then have "(2::int) ^ (nat (int ?s + 53) - 1) \<le> k" by (simp add: bitlen_ge_iff_power)
  moreover have "nat (int ?s + 53) - 1 = 52 + ?s" by simp
  ultimately have "(2::int) ^ 52 * 2 ^ ?s \<le> k" by (simp add: power_add)
  then have "(2 ^ 52 * 2 ^ ?s) div 2 ^ ?s \<le> k div (2::int) ^ ?s"
    by (intro zdiv_mono1) simp_all
  then show ?thesis by simp
qed

lemma round_units_sign [simp]: "sign (round_units sg j k) = sg"
  by (simp add: round_units_def Let_def)

lemma round_units_arg_nonneg:
  assumes "0 \<le> k"
  shows "0 \<le> int (shift_of j k - j) * 2 ^ 52 + round_half_even k (shift_of j k)"
proof -
  have "0 \<le> k div 2 ^ shift_of j k" using assms by (simp add: pos_imp_zdiv_nonneg_iff)
  with rhe_bounds(1) [of k "shift_of j k"] show ?thesis by simp
qed

lemma round_units_not_nan: "0 \<le> k \<Longrightarrow> \<not> is_nan (round_units sg j k)"
  unfolding round_units_def Let_def by (intro pack_not_nan round_units_arg_nonneg)

lemma round_units_zero: "round_units sg j 0 = Zero sg"
  by (simp add: round_units_def shift_of_def round_half_even_def pack_def Zero_def)

lemma shift_of_scale:
  assumes "0 < k"
  shows "shift_of (j + c) (k * 2 ^ c) = shift_of j k + c"
  using assms by (auto simp: shift_of_def max_def nat_add_distrib)

lemma rhe_scale: "round_half_even (k * 2 ^ c) (s + c) = round_half_even k s"
proof -
  have d: "(k * 2 ^ c) div (2 ^ (s + c)) = k div (2::int) ^ s"
    by (simp add: power_add)
  have m: "(k * 2 ^ c) mod (2 ^ (s + c)) = (k mod (2::int) ^ s) * 2 ^ c"
    by (simp add: power_add mult_mod_left)
  show ?thesis
    unfolding round_half_even_def Let_def d m
    by (simp add: power_add)
qed

lemma round_units_scale:
  assumes "0 < k"
  shows "round_units sg (j + c) (k * 2 ^ c) = round_units sg j k"
  by (simp add: round_units_def Let_def shift_of_scale [OF assms] rhe_scale)

lemma round_units_exact:
  assumes m: "0 < m" "m < 2 ^ 53" and k: "k = m * 2 ^ t" and lim: "k < 2 ^ 2098"
  shows "expo (round_units sg 0 k) \<noteq> 2047" "units (round_units sg 0 k) = k"
proof -
  let ?s = "shift_of 0 k"
  let ?q = "k div 2 ^ ?s"
  have kpos: "0 < k" using m k by simp
  have "k < 2 ^ 53 * 2 ^ t" using m k by simp
  then have "k < 2 ^ nat (53 + int t)" by (simp add: power_add nat_add_distrib)
  then have bl: "bitlen k \<le> 53 + int t" by (simp add: bitlen_le_iff_power)
  then have st: "?s \<le> t" by (simp add: shift_of_def)
  have "bitlen k \<le> 2098" using lim by (simp add: bitlen_le_iff_power)
  then have s45: "?s \<le> 2045" by (simp add: shift_of_def)
  have "(2::int) ^ ?s dvd 2 ^ t" using st by (rule le_imp_power_dvd)
  then have dv: "2 ^ ?s dvd k" using k by simp
  then have rhe: "round_half_even k ?s = ?q" by (rule rhe_exact)
  have kq: "?q * 2 ^ ?s = k" using dv by simp
  have q53: "?q < 2 ^ 53" using kpos by (rule shift_quot_lt)
  have q0: "0 \<le> ?q" using kpos by (simp add: pos_imp_zdiv_nonneg_iff)
  have ru: "round_units sg 0 k = pack sg (int ?s * 2 ^ 52 + ?q)"
    by (simp add: round_units_def Let_def rhe)
  have "int ?s * 2 ^ 52 \<le> 2045 * 2 ^ 52" using s45 by simp
  then have nlt: "int ?s * 2 ^ 52 + ?q < 2047 * 2 ^ 52" using q53 by simp
  have n0: "0 \<le> int ?s * 2 ^ 52 + ?q" using q0 by simp
  show "expo (round_units sg 0 k) \<noteq> 2047"
    unfolding ru using n0 nlt by (rule pack_finite)
  show "units (round_units sg 0 k) = k"
  proof (cases "?s = 0")
    case True
    then have qk: "?q = k" by simp
    show ?thesis
    proof (cases "k < 2 ^ 52")
      case True
      with kpos \<open>?s = 0\<close> show ?thesis
        by (simp add: ru units_pack_subnormal)
    next
      case False
      then have "2 ^ 52 \<le> ?q" "?q \<le> 2 ^ 53" using qk q53 by simp_all
      from units_pack_normal [OF _ this, of 0 sg] nlt \<open>?s = 0\<close> qk
      show ?thesis by (simp add: ru)
    qed
  next
    case False
    then have "0 < ?s" by simp
    then have "2 ^ 52 \<le> ?q" using kpos by (intro shift_quot_ge) simp_all
    moreover have "?q \<le> 2 ^ 53" using q53 by simp
    ultimately have "units (pack sg (int ?s * 2 ^ 52 + ?q)) = ?q * 2 ^ nat (int ?s)"
      using nlt by (intro units_pack_normal) simp_all
    then show ?thesis using kq by (simp add: ru)
  qed
qed

lemma round_units_roundtrip:
  assumes "expo a \<noteq> 2047"
  shows "round_units (sign a) 0 (units a) = a"
proof (cases "is_zero a")
  case True
  then have "units a = 0" by (simp add: units_zero_iff)
  moreover have "a = Zero (sign a)" using True by (cases a) (simp add: is_zero_def Zero_def)
  ultimately show ?thesis by (simp add: round_units_zero)
next
  case False
  have nn: "\<not> is_nan a" using assms by (simp add: is_nan_def)
  have ne: "uint (expo a) \<noteq> 2047" using assms by (simp add: word_uint_eq_iff)
  then have e46: "uint (expo a) \<le> 2046" using expo_lt [of "expo a"] by simp
  show ?thesis
  proof (cases "expo a = 0")
    case True
    then have u: "units a = uint (mant a)" by (simp add: units_def)
    have "units a < 2 ^ 52" unfolding u by (rule mant_lt)
    then have "units a < 2 ^ nat 53" by simp
    then have "bitlen (units a) \<le> 53" by (simp only: bitlen_le_iff_power) simp
    then have s: "shift_of 0 (units a) = 0" by (simp add: shift_of_def)
    have r: "round_units (sign a) 0 (units a) = pack (sign a) (units a)"
      by (simp add: round_units_def Let_def s rhe_exact)
    have um: "units a = mag a" using True by (simp add: u mag_def)
    have "pack (sign a) (units a) = a" unfolding um using nn by (rule pack_mag)
    with r show ?thesis by simp
  next
    case nz: False
    let ?f = "uint (mant a)"
    let ?e = "unat (expo a) - 1"
    have epos: "0 < unat (expo a)" using nz by (simp add: unat_gt_0)
    have u: "units a = (2 ^ 52 + ?f) * 2 ^ ?e" using nz by (simp add: units_def)
    have "bitlen (2 ^ 52 + ?f) = 53"
      using bitlen_twopow_add_eq [of ?f 52] mant_lt [of "mant a"] by simp
    then have "bitlen (units a) = 53 + int ?e"
      unfolding u by (subst bitlen_pow2) (simp_all add: add_pos_nonneg)
    then have s: "shift_of 0 (units a) = ?e" by (simp add: shift_of_def)
    have "2 ^ ?e dvd units a" unfolding u by simp
    then have "round_half_even (units a) ?e = units a div 2 ^ ?e" by (rule rhe_exact)
    also have "\<dots> = 2 ^ 52 + ?f" unfolding u by simp
    finally have r: "round_units (sign a) 0 (units a) =
        pack (sign a) (int ?e * 2 ^ 52 + (2 ^ 52 + ?f))"
      by (simp add: round_units_def Let_def s)
    have "int (unat (expo a)) = uint (expo a)" by simp
    then have "int ?e = uint (expo a) - 1" using epos by (simp add: of_nat_diff)
    then have "int ?e * 2 ^ 52 + (2 ^ 52 + ?f) = mag a"
      unfolding mag_def by (simp only: left_diff_distrib)
    then show ?thesis unfolding r using pack_mag [OF nn] by simp
  qed
qed


section \<open>Properties of the Number operators\<close>

lemma is_nan_NaN [simp]: "is_nan NaN"
  by (simp add: is_nan_def NaN_def)

lemma Zero_class [simp]: "\<not> is_nan (Zero s)" "\<not> is_inf (Zero s)" "is_zero (Zero s)"
  "sign (Zero s) = s" "units (Zero s) = 0"
  by (simp_all add: is_nan_def is_inf_def is_zero_def Zero_def units_def)

lemma Infinity_class [simp]: "\<not> is_nan (Infinity s)" "is_inf (Infinity s)" "\<not> is_zero (Infinity s)"
  "sign (Infinity s) = s"
  by (simp_all add: is_nan_def is_inf_def is_zero_def Infinity_def)

lemma inf_not_nan: "is_inf a \<Longrightarrow> \<not> is_nan a"
  by (simp add: is_inf_def is_nan_def)

lemma inf_eq: "is_inf a \<Longrightarrow> is_inf b \<Longrightarrow> sign a = sign b \<Longrightarrow> a = b"
  by (cases a; cases b) (simp add: is_inf_def)

lemma finite_iff: "expo a \<noteq> 2047 \<longleftrightarrow> \<not> is_nan a \<and> \<not> is_inf a"
  by (auto simp: is_nan_def is_inf_def)

lemma num_add_commute: "num_add a b = num_add b a"
  by (auto simp: num_add_def Let_def add.commute inf_eq dest: inf_not_nan)

lemma num_mul_commute: "num_mul a b = num_mul b a"
  by (cases "sign a"; cases "sign b") (auto simp: num_mul_def mult.commute)

lemma num_add_nan_iff:
  "is_nan (num_add a b) \<longleftrightarrow> is_nan a \<or> is_nan b \<or> (is_inf a \<and> is_inf b \<and> sign a \<noteq> sign b)"
  by (auto simp: num_add_def Let_def round_units_not_nan dest: inf_not_nan)

lemma num_mul_nan_iff:
  "is_nan (num_mul a b) \<longleftrightarrow>
     is_nan a \<or> is_nan b \<or> (is_inf a \<and> is_zero b) \<or> (is_zero a \<and> is_inf b)"
proof -
  have "0 \<le> units a * units b" by (simp add: units_nonneg)
  then have "\<not> is_nan (round_units (sign a \<noteq> sign b) 1074 (units a * units b))"
    by (rule round_units_not_nan)
  then show ?thesis
    by (auto simp: num_mul_def is_zero_def is_inf_def)
qed

lemma num_eq_refl: "\<not> is_nan a \<Longrightarrow> num_eq a a"
  by (simp add: num_eq_def)

lemma num_add_zero:
  assumes "\<not> is_nan a"
  shows "num_eq (num_add a (Zero False)) a"
proof (cases "is_inf a")
  case True
  with assms show ?thesis by (simp add: num_add_def num_eq_def)
next
  case False
  with assms have fin: "expo a \<noteq> 2047" by (simp add: finite_iff)
  show ?thesis
  proof (cases "is_zero a")
    case True
    then have "sunits a = 0" by (simp add: sunits_def units_zero_iff)
    with assms False True show ?thesis
      by (simp add: num_add_def sunits_def num_eq_def)
  next
    case nz: False
    then have pos: "0 < units a" using units_nonneg [of a] by (simp add: units_zero_iff less_le)
    then have "sunits a \<noteq> 0" "sunits a < 0 \<longleftrightarrow> sign a" "\<bar>sunits a\<bar> = units a"
      by (simp_all add: sunits_def)
    then have "num_add a (Zero False) = round_units (sign a) 0 (units a)"
      using assms False by (simp add: num_add_def sunits_def)
    then show ?thesis using fin assms by (simp add: round_units_roundtrip num_eq_refl)
  qed
qed

lemma num_mul_zero:
  assumes "expo a \<noteq> 2047"
  shows "num_mul a (Zero s) = Zero (sign a \<noteq> s)"
  using assms by (simp add: num_mul_def finite_iff round_units_zero)

lemma num_of_int_zero: "num_of_int 0 = Zero False"
  by (simp add: num_of_int_def round_units_zero)

lemma num_of_int_exact:
  assumes "0 < m" "m < 2 ^ 53" "i = m * 2 ^ t" "i < 2 ^ 1024"
  shows "expo (num_of_int i) \<noteq> 2047" "units (num_of_int i) = i * 2 ^ 1074"
    "sign (num_of_int i) = False"
proof -
  have ipos: "0 < i" using assms by simp
  have k: "i * 2 ^ 1074 = m * 2 ^ (t + 1074)" using assms(3) by (simp add: power_add)
  have "i * 2 ^ 1074 < 2 ^ 1024 * 2 ^ 1074" using assms(4) by simp
  then have lim: "i * 2 ^ 1074 < 2 ^ 2098" by simp
  have n: "num_of_int i = round_units False 0 (i * 2 ^ 1074)"
    using ipos by (simp add: num_of_int_def)
  show "expo (num_of_int i) \<noteq> 2047" "units (num_of_int i) = i * 2 ^ 1074"
    unfolding n by (rule round_units_exact [OF assms(1,2) k lim])+
  show "sign (num_of_int i) = False" unfolding n by simp
qed

lemma num_of_int_safe:
  assumes "0 \<le> i" "i \<le> 2 ^ 53"
  shows "expo (num_of_int i) \<noteq> 2047" "units (num_of_int i) = i * 2 ^ 1074"
    "sign (num_of_int i) = False"
proof -
  consider "i = 0" | "0 < i" "i < 2 ^ 53" | "i = 2 ^ 53" using assms by fastforce
  then have "expo (num_of_int i) \<noteq> 2047 \<and> units (num_of_int i) = i * 2 ^ 1074 \<and>
      sign (num_of_int i) = False"
  proof cases
    case 1
    then show ?thesis by (simp add: num_of_int_zero Zero_def units_def)
  next
    case 2
    then show ?thesis using num_of_int_exact [of i i 0] by simp
  next
    case 3
    then show ?thesis using num_of_int_exact [of 1 i 53] by simp
  qed
  then show "expo (num_of_int i) \<noteq> 2047" "units (num_of_int i) = i * 2 ^ 1074"
    "sign (num_of_int i) = False" by simp_all
qed

lemma mag_nonneg: "0 \<le> mag d"
  by (simp add: mag_def)

lemma mag_zero_iff: "mag d = 0 \<longleftrightarrow> is_zero d"
proof -
  have "0 \<le> uint (expo d) * 2 ^ 52" "0 \<le> uint (mant d)" by simp_all
  then have "mag d = 0 \<longleftrightarrow> uint (expo d) * 2 ^ 52 = 0 \<and> uint (mant d) = 0"
    unfolding mag_def by linarith
  then show ?thesis by (simp add: is_zero_def word_uint_eq_iff)
qed

lemma mag_Zero [simp]: "mag (Zero s) = 0"
  by (simp add: mag_def Zero_def)

lemma not_lt_zero: "\<not> sign a \<Longrightarrow> \<not> num_lt a (Zero False)"
  using mag_nonneg [of a] by (simp add: num_lt_def)

lemma lt_zero: "sign a \<Longrightarrow> \<not> is_nan a \<Longrightarrow> \<not> is_zero a \<Longrightarrow> num_lt a (Zero False)"
  using mag_nonneg [of a] mag_zero_iff [of a] by (simp add: num_lt_def)

lemma num_eq_units: "num_eq a b \<Longrightarrow> units a = units b"
  using units_zero_iff [of a] units_zero_iff [of b] by (auto simp: num_eq_def)

lemma one_fields: "num_of_int 1 = Double False 1023 0"
  by code_simp

lemma one_units: "units (num_of_int 1) = 2 ^ 1074"
  using num_of_int_safe(2) [of 1] by simp

lemma num_sub_one:
  assumes "2 \<le> i" "i \<le> 2 ^ 53"
  shows "num_sub (num_of_int i) (num_of_int 1) = num_of_int (i - 1)"
proof -
  let ?a = "num_of_int i"
  have a: "expo ?a \<noteq> 2047" "units ?a = i * 2 ^ 1074" "sign ?a = False"
    using assms by (simp_all add: num_of_int_safe)
  have m1: "num_neg (num_of_int 1) = Double True 1023 0"
    by (simp add: one_fields num_neg_def is_nan_def)
  have u1: "units (Double True 1023 0) = 2 ^ 1074"
    using one_units by (simp add: one_fields units_def)
  have c: "\<not> is_nan ?a" "\<not> is_inf ?a" using a(1) by (simp_all add: finite_iff)
  have c1: "\<not> is_nan (Double True 1023 0)" "\<not> is_inf (Double True 1023 0)"
    by (simp_all add: is_nan_def is_inf_def)
  have k: "sunits ?a + sunits (Double True 1023 0) = (i - 1) * 2 ^ 1074"
    using a u1 by (simp add: sunits_def algebra_simps)
  have pos: "0 < (i - 1) * (2::int) ^ 1074" using assms by simp
  have "num_sub ?a (num_of_int 1) = round_units False 0 ((i - 1) * 2 ^ 1074)"
    unfolding num_sub_def m1 num_add_def Let_def k using c c1 pos by simp
  also have "\<dots> = num_of_int (i - 1)" using assms by (simp add: num_of_int_def)
  finally show ?thesis .
qed

lemma num_mul_exact:
  assumes a: "expo (num_of_int i) \<noteq> 2047" "units (num_of_int i) = i * 2 ^ 1074"
      "sign (num_of_int i) = False"
    and b: "expo (num_of_int j) \<noteq> 2047" "units (num_of_int j) = j * 2 ^ 1074"
      "sign (num_of_int j) = False"
    and pos: "0 < i" "0 < j"
  shows "num_mul (num_of_int i) (num_of_int j) = num_of_int (i * j)"
proof -
  have p: "0 < i * j * 2 ^ 1074" using pos by simp
  have "num_mul (num_of_int i) (num_of_int j) =
      round_units False 1074 (i * 2 ^ 1074 * (j * 2 ^ 1074))"
    using a b by (simp add: num_mul_def finite_iff)
  also have "i * 2 ^ 1074 * (j * 2 ^ 1074) = (i * j * 2 ^ 1074) * 2 ^ 1074"
    by (simp only: mult.assoc mult.left_commute)
  also have "round_units False 1074 ((i * j * 2 ^ 1074) * 2 ^ 1074) =
      round_units False 0 (i * j * 2 ^ 1074)"
    using round_units_scale [OF p, of False 0 1074] by simp
  also have "\<dots> = num_of_int (i * j)"
  proof -
    have "0 < i * j" using pos by simp
    then have "\<not> i * j < 0" "\<bar>i * j\<bar> = i * j" by simp_all
    then show ?thesis unfolding num_of_int_def by (simp only: if_False)
  qed
  finally show ?thesis .
qed


section \<open>Whole numbers held exactly\<close>

lemma round_units_integral:
  assumes "0 < k" "2 ^ 1074 dvd k"
  shows "sign (round_units sg 0 k) = sg" "\<not> is_nan (round_units sg 0 k)"
    "\<not> is_zero (round_units sg 0 k)"
    "is_inf (round_units sg 0 k) \<or> 2 ^ 1074 dvd units (round_units sg 0 k)"
proof -
  let ?s = "shift_of 0 k"
  let ?q = "k div 2 ^ ?s"
  let ?r = "round_half_even k ?s"
  let ?n = "int ?s * 2 ^ 52 + ?r"
  let ?d = "round_units sg 0 k"
  have d: "?d = pack sg ?n" by (simp add: round_units_def Let_def)
  show "sign ?d = sg" by simp
  show nn: "\<not> is_nan ?d" using assms(1) by (intro round_units_not_nan) simp
  have q53: "?q < 2 ^ 53" using assms(1) by (rule shift_quot_lt)
  have q0: "0 \<le> ?q" using assms(1) by (simp add: pos_imp_zdiv_nonneg_iff)
  have "\<not> is_zero ?d \<and> (is_inf ?d \<or> 2 ^ 1074 dvd units ?d)"
  proof (cases "2047 * 2 ^ 52 \<le> ?n")
    case True
    then have "?d = Infinity sg" unfolding d pack_def by (simp only: if_True)
    then show ?thesis by simp
  next
    case fin: False
    show ?thesis
    proof (cases "?s \<le> 1074")
      case True
      then have "(2::int) ^ ?s dvd 2 ^ 1074" by (rule le_imp_power_dvd)
      then have dv: "2 ^ ?s dvd k" using assms(2) by (rule dvd_trans)
      then have kq: "k = ?q * 2 ^ ?s" by simp
      have qpos: "0 < ?q" using kq assms(1) q0 by (cases "?q = 0") simp_all
      have "?q * 2 ^ ?s < 2 ^ 53 * 2 ^ ?s" using q53 by simp
      also have "\<dots> \<le> 2 ^ 53 * (2::int) ^ 1074"
      proof -
        have "(2::int) ^ ?s \<le> 2 ^ 1074" using True by (intro power_increasing) simp_all
        then show ?thesis by (intro mult_left_mono) simp_all
      qed
      also have "\<dots> < 2 ^ 2098" by simp
      finally have lim: "k < 2 ^ 2098" using kq by simp
      have "units ?d = k" using qpos q53 kq lim by (rule round_units_exact(2))
      then show ?thesis using assms by (simp add: units_zero_iff [symmetric])
    next
      case False
      then have big: "1074 \<le> ?s" "0 < ?s" by simp_all
      have q52: "2 ^ 52 \<le> ?q" using assms(1) big(2) by (rule shift_quot_ge)
      have r: "2 ^ 52 \<le> ?r" "?r \<le> 2 ^ 53"
        using rhe_bounds [of k ?s] q52 q53 by linarith+
      have nlt: "?n < 2047 * 2 ^ 52" using fin by simp
      have u: "units ?d = ?r * 2 ^ nat (int ?s)"
        unfolding d using _ r nlt by (rule units_pack_normal) simp
      have "(2::int) ^ 1074 dvd 2 ^ ?s" using big(1) by (rule le_imp_power_dvd)
      then have "2 ^ 1074 dvd units ?d" unfolding u by simp
      moreover have "?r \<noteq> 0" using r(1) by simp
      then have "units ?d \<noteq> 0" unfolding u by simp
      then have "\<not> is_zero ?d" by (simp add: units_zero_iff)
      ultimately show ?thesis by simp
    qed
  qed
  then show "\<not> is_zero ?d" "is_inf ?d \<or> 2 ^ 1074 dvd units ?d" by simp_all
qed

lemma int_value_exact_iff:
  assumes "0 < i"
  shows "int_value (num_of_int i) = Some i \<longleftrightarrow>
     expo (num_of_int i) \<noteq> 2047 \<and> units (num_of_int i) = i * 2 ^ 1074 \<and>
     sign (num_of_int i) = False"
proof -
  have s: "sign (num_of_int i) = False" using assms by (simp add: num_of_int_def)
  show ?thesis
    by (auto simp: int_value_def s)
qed

lemma int_value_safe:
  assumes "0 \<le> i" "i \<le> 2 ^ 53"
  shows "int_value (num_of_int i) = Some i"
  using num_of_int_safe [OF assms] by (simp add: int_value_def)

lemma int_value_representable:
  assumes "0 < m" "m < 2 ^ 53" "i = m * 2 ^ t" "i < 2 ^ 1024"
  shows "int_value (num_of_int i) = Some i"
  using num_of_int_exact [OF assms] by (simp add: int_value_def)

lemma num_mul_int:
  assumes "0 < i" "0 < j" "int_value (num_of_int i) = Some i" "int_value (num_of_int j) = Some j"
  shows "num_mul (num_of_int i) (num_of_int j) = num_of_int (i * j)"
  using assms num_mul_exact [of i j] by (simp add: int_value_exact_iff)

lemma fact_exact:
  assumes "k \<le> 22"
  shows "int_value (num_of_int (fact k)) = Some (fact k)"
proof -
  consider "k \<le> 18" | "k = 19" | "k = 20" | "k = 21" | "k = 22" using assms by linarith
  then show ?thesis
  proof cases
    case 1
    then have "(fact k :: int) \<le> fact 18" by (simp add: fact_mono)
    also have "(fact 18 :: int) \<le> 2 ^ 53" by (simp add: fact_numeral)
    finally show ?thesis by (intro int_value_safe) simp_all
  next
    case 2
    show ?thesis unfolding 2
      by (rule int_value_representable [of 1856156927625 _ 16]) (simp_all add: fact_numeral)
  next
    case 3
    show ?thesis unfolding 3
      by (rule int_value_representable [of 9280784638125 _ 18]) (simp_all add: fact_numeral)
  next
    case 4
    show ?thesis unfolding 4
      by (rule int_value_representable [of 194896477400625 _ 18]) (simp_all add: fact_numeral)
  next
    case 5
    show ?thesis unfolding 5
      by (rule int_value_representable [of 2143861251406875 _ 19]) (simp_all add: fact_numeral)
  qed
qed

lemma fact23_double: "num_of_int 25852016738884976640000 = Double False 1097 1660001470424270"
  by code_simp

lemma fact23_value: "int_value (Double False 1097 1660001470424270) = Some 25852016738884978212864"
  by code_simp

lemma zero_not_lt: "is_zero a \<Longrightarrow> \<not> num_lt a (Zero False)"
  using mag_zero_iff [of a] by (simp add: num_lt_def)

lemma nonneg_whole_not_lt: "nonneg_whole d \<Longrightarrow> \<not> num_lt d (Zero False)"
  by (cases "sign d") (auto simp: nonneg_whole_def zero_not_lt not_lt_zero)

lemma neg_one: "num_neg (num_of_int 1) = Double True 1023 0"
  by (simp add: one_fields num_neg_def is_nan_def)

lemma neg_one_class: "\<not> is_nan (Double True 1023 0)" "\<not> is_inf (Double True 1023 0)"
  "sunits (Double True 1023 0) = - (2 ^ 1074)"
proof -
  have "units (Double True 1023 0) = units (num_of_int 1)"
    by (simp add: one_fields units_def)
  then show "sunits (Double True 1023 0) = - (2 ^ 1074)"
    by (simp add: sunits_def one_units)
qed (simp_all add: is_nan_def is_inf_def)

lemma nonneg_whole_pred:
  assumes "nonneg_whole d" "\<not> num_eq d (Zero False)"
  shows "nonneg_whole (num_sub d (num_of_int 1))"
proof (cases "is_inf d")
  case True
  then have "num_sub d (num_of_int 1) = d"
    using assms(1) by (simp add: num_sub_def neg_one num_add_def neg_one_class nonneg_whole_def)
  then show ?thesis using assms(1) by simp
next
  case False
  have nn: "\<not> is_nan d" using assms(1) by (simp add: nonneg_whole_def)
  have nz: "\<not> is_zero d" using assms(2) nn by (auto simp: num_eq_def)
  then have sg: "\<not> sign d" using assms(1) by (auto simp: nonneg_whole_def)
  have dv: "2 ^ 1074 dvd units d" using assms(1) False by (simp add: nonneg_whole_def)
  have "units d \<noteq> 0" using nz by (simp add: units_zero_iff)
  then have pos: "0 < units d" using units_nonneg [of d] by simp
  then have ge: "2 ^ 1074 \<le> units d" using dv by (intro zdvd_imp_le) simp_all
  let ?k = "units d - 2 ^ 1074"
  have "sunits d = units d" using sg by (simp add: sunits_def)
  then have k: "sunits d + sunits (Double True 1023 0) = ?k"
    by (simp add: neg_one_class(3))
  have kdv: "2 ^ 1074 dvd ?k" using dv by simp
  have sub: "num_sub d (num_of_int 1) =
      (if ?k = 0 then Zero False else round_units (?k < 0) 0 \<bar>?k\<bar>)"
    unfolding num_sub_def neg_one num_add_def Let_def k
    using nn False sg by (simp add: neg_one_class)
  show ?thesis
  proof (cases "?k = 0")
    case True
    then have "num_sub d (num_of_int 1) = Zero False" unfolding sub by simp
    then show ?thesis by (simp add: nonneg_whole_def)
  next
    case nzk: False
    then have kpos: "0 < ?k" using ge by simp
    then have "\<not> ?k < 0" "\<bar>?k\<bar> = ?k" by simp_all
    then have "num_sub d (num_of_int 1) = round_units False 0 ?k"
      unfolding sub using nzk by (simp only: if_False)
    then show ?thesis
      using round_units_integral [OF kpos kdv, of False] by (simp add: nonneg_whole_def)
  qed
qed

lemma int_value_sign:
  assumes "int_value n = Some i"
  shows "expo n \<noteq> 2047" "2 ^ 1074 dvd units n"
    "i = (if sign n then - 1 else 1) * (units n div 2 ^ 1074)"
  using assms by (simp_all add: int_value_def split: if_splits)

lemma int_value_nonneg:
  assumes "int_value n = Some i" "0 \<le> i"
  shows "nonneg_whole n"
proof -
  note f = int_value_sign [OF assms(1)]
  have nn: "\<not> is_nan n" using f(1) by (simp add: finite_iff)
  have "is_zero n" if "sign n"
  proof -
    have "units n div 2 ^ 1074 \<le> 0" using f(3) that assms(2) by simp
    moreover have "0 \<le> units n div 2 ^ 1074" using units_nonneg [of n] by (simp add: pos_imp_zdiv_nonneg_iff)
    ultimately have "units n div 2 ^ 1074 = 0" by simp
    then have "units n = 0" using f(2) by (metis dvd_div_eq_0_iff)
    then show ?thesis by (simp add: units_zero_iff)
  qed
  then show ?thesis using nn f(2) by (simp add: nonneg_whole_def)
qed

lemma int_value_neg:
  assumes "int_value n = Some i" "i < 0"
  shows "num_lt n (Zero False)"
proof -
  note f = int_value_sign [OF assms(1)]
  have nn: "\<not> is_nan n" using f(1) by (simp add: finite_iff)
  have q: "0 \<le> units n div 2 ^ 1074" using units_nonneg [of n] by (simp add: pos_imp_zdiv_nonneg_iff)
  have s: "sign n" using f(3) assms(2) q by (cases "sign n") simp_all
  have "units n div 2 ^ 1074 \<noteq> 0" using f(3) assms(2) by auto
  then have "units n \<noteq> 0" by auto
  then have "\<not> is_zero n" by (simp add: units_zero_iff)
  with s nn show ?thesis by (rule lt_zero)
qed

lemma int_value_pos:
  assumes "int_value n = Some i" "0 < i"
  shows "n = num_of_int i"
proof -
  note f = int_value_sign [OF assms(1)]
  have q: "0 \<le> units n div 2 ^ 1074" using units_nonneg [of n] by (simp add: pos_imp_zdiv_nonneg_iff)
  have s: "\<not> sign n" using f(3) assms(2) q by (cases "sign n") simp_all
  then have "units n div 2 ^ 1074 = i" using f(3) by simp
  then have u: "units n = i * 2 ^ 1074" using f(2) by auto
  have "n = round_units (sign n) 0 (units n)" using f(1) by (simp add: round_units_roundtrip)
  also have "\<dots> = num_of_int i" using s u assms(2) by (simp add: num_of_int_def)
  finally show ?thesis .
qed

lemma int_value_zero:
  assumes "int_value n = Some 0"
  shows "num_eq n (Zero False)" "\<not> num_lt n (Zero False)"
proof -
  note f = int_value_sign [OF assms(1)]
  have nn: "\<not> is_nan n" using f(1) by (simp add: finite_iff)
  have "units n div 2 ^ 1074 = 0" using f(3) by (cases "sign n") simp_all
  then have "units n = 0" using f(2) by (metis dvd_div_eq_0_iff)
  then have z: "is_zero n" by (simp add: units_zero_iff)
  then show "num_eq n (Zero False)" using nn by (simp add: num_eq_def)
  show "\<not> num_lt n (Zero False)" using z by (rule zero_not_lt)
qed

lemma stuck_fields:
  "\<not> num_lt (Double False 1076 2) (Zero False)"
  "\<not> num_eq (Double False 1076 2) (Zero False)"
  "\<not> num_eq (Double False 1076 2) (num_of_int 1)"
  by (simp_all add: num_lt_def num_eq_def one_fields Zero_def mag_def is_zero_def)

lemma stuck_sub: "num_sub (Double False 1076 2) (num_of_int 1) = Double False 1076 2"
  unfolding neg_one num_sub_def by code_simp

lemma stuck_value: "int_value (Double False 1076 2) = Some 9007199254740996"
  by code_simp

lemma minus_one_value: "int_value (Double True 1023 0) = Some (- 1)"
proof -
  have "units (Double True 1023 0) = units (num_of_int 1)" by (simp add: one_fields units_def)
  then have u: "units (Double True 1023 0) = 2 ^ 1074" by (simp only: one_units)
  have d: "(2::int) ^ 1074 dvd 2 ^ 1074" by (rule dvd_refl)
  have q: "(2::int) ^ 1074 div 2 ^ 1074 = 1" by (rule div_self) simp
  have e: "expo (Double True 1023 0) \<noteq> 2047" by simp
  show ?thesis unfolding int_value_def u using d q e by (simp only: simp_thms if_True double.sel mult_1_right)
qed


section \<open>Properties of factorial\<close>

lemma factorial_throws:
  "num_lt n (Zero False) \<Longrightarrow>
   factorial d n = Inl (Error ''Factorial not defined for negative numbers'')"
  by (cases d) simp_all

lemma factorial_base:
  "factorial d (num_of_int 0) = Inr (num_of_int 1)"
  "factorial d (num_of_int 1) = Inr (num_of_int 1)"
proof -
  have "\<not> num_lt (num_of_int 0) (Zero False)" "\<not> num_lt (num_of_int 1) (Zero False)"
    by (simp_all add: not_lt_zero num_of_int_safe)
  moreover have "num_eq (num_of_int 0) (Zero False)"
    by (simp add: num_of_int_zero num_eq_def)
  moreover have "num_eq (num_of_int 1) (num_of_int 1)"
    by (simp add: one_fields num_eq_def is_nan_def)
  ultimately show "factorial d (num_of_int 0) = Inr (num_of_int 1)"
    "factorial d (num_of_int 1) = Inr (num_of_int 1)"
    by (cases d; simp)+
qed

lemma factorial_zero_value:
  assumes "int_value n = Some 0"
  shows "factorial d n = Inr (num_of_int 1)"
  using int_value_zero [OF assms] by (cases d) simp_all

lemma not_base:
  assumes "2 \<le> i" "i \<le> 2 ^ 53"
  shows "\<not> num_lt (num_of_int i) (Zero False)" "\<not> num_eq (num_of_int i) (Zero False)"
    "\<not> num_eq (num_of_int i) (num_of_int 1)"
proof -
  have s: "expo (num_of_int i) \<noteq> 2047" "units (num_of_int i) = i * 2 ^ 1074"
    "sign (num_of_int i) = False"
    using assms by (simp_all add: num_of_int_safe)
  show "\<not> num_lt (num_of_int i) (Zero False)" using s(3) by (simp add: not_lt_zero)
  have "units (num_of_int i) \<noteq> units (Zero False)" using s(2) assms by simp
  then show "\<not> num_eq (num_of_int i) (Zero False)" using num_eq_units by blast
  have "units (num_of_int i) \<noteq> units (num_of_int 1)" using s(2) assms by (simp add: one_units)
  then show "\<not> num_eq (num_of_int i) (num_of_int 1)" using num_eq_units by blast
qed

lemma factorial_step:
  assumes "2 \<le> i" "i \<le> 2 ^ 53"
  shows "factorial (Suc d) (num_of_int i) =
     (case factorial d (num_of_int (i - 1)) of
        Inl e \<Rightarrow> Inl e
      | Inr v \<Rightarrow> Inr (num_mul (num_of_int i) v))"
    and "factorial 0 (num_of_int i) = Inl (RangeError ''Maximum call stack size exceeded'')"
  by (simp_all add: not_base [OF assms] num_sub_one [OF assms])

lemma factorial_returns:
  assumes "n \<le> 2 ^ 53" "n - 1 \<le> d"
  shows "\<exists>v. factorial d (num_of_int (int n)) = Inr v"
  using assms
proof (induction n arbitrary: d)
  case 0
  then show ?case using factorial_base(1) by simp
next
  case (Suc n)
  show ?case
  proof (cases "n = 0")
    case True
    then show ?thesis using factorial_base(2) by simp
  next
    case False
    then have r: "2 \<le> int (Suc n)" "int (Suc n) \<le> 2 ^ 53" using Suc.prems by simp_all
    from False Suc.prems obtain d' where d: "d = Suc d'" "n - 1 \<le> d'"
      by (cases d) auto
    from Suc.IH [of d'] Suc.prems d obtain v where
      v: "factorial d' (num_of_int (int n)) = Inr v" by auto
    have "int (Suc n) - 1 = int n" by simp
    then show ?thesis using factorial_step(1) [OF r, of d'] v d by simp
  qed
qed

lemma factorial_overflows:
  assumes "2 \<le> n" "n \<le> 2 ^ 53" "d < n - 1"
  shows "factorial d (num_of_int (int n)) = Inl (RangeError ''Maximum call stack size exceeded'')"
  using assms
proof (induction d arbitrary: n)
  case 0
  have "2 \<le> int n" using 0(1) by linarith
  moreover have "int n \<le> 2 ^ 53" using 0(2) by (metis of_nat_le_iff of_nat_numeral of_nat_power)
  ultimately show ?case by (rule factorial_step(2))
next
  case (Suc d)
  have r: "2 \<le> int n" "int n \<le> 2 ^ 53"
    using Suc.prems(1) apply linarith
    using Suc.prems(2) by (metis of_nat_le_iff of_nat_numeral of_nat_power)
  have a: "2 \<le> n - 1" using Suc.prems(3) by linarith
  have b: "n - 1 \<le> 2 ^ 53" using Suc.prems(2) by linarith
  have c: "d < n - 1 - 1" using Suc.prems(3) by linarith
  have "factorial d (num_of_int (int (n - 1))) =
      Inl (RangeError ''Maximum call stack size exceeded'')"
    using a b c by (rule Suc.IH)
  moreover have "int n - 1 = int (n - 1)" using Suc.prems(1) by linarith
  ultimately show ?case using factorial_step(1) [OF r, of d] by (simp only: sum.case)
qed

lemma factorial_rounded:
  assumes "n \<le> 2 ^ 53" "n - 1 \<le> d" "\<forall>k<n. int_value (num_of_int (fact k)) = Some (fact k)"
  shows "factorial d (num_of_int (int n)) = Inr (num_of_int (fact n))"
  using assms
proof (induction n arbitrary: d)
  case 0
  then show ?case using factorial_base(1) by simp
next
  case (Suc n)
  show ?case
  proof (cases "n = 0")
    case True
    then show ?thesis using factorial_base(2) by simp
  next
    case False
    then have r: "2 \<le> int (Suc n)" "int (Suc n) \<le> 2 ^ 53" using Suc.prems by simp_all
    from False Suc.prems obtain d' where d: "d = Suc d'" "n - 1 \<le> d'"
      by (cases d) auto
    have ih: "factorial d' (num_of_int (int n)) = Inr (num_of_int (fact n))"
      using Suc.prems d by (intro Suc.IH) simp_all
    have e: "int_value (num_of_int (int (Suc n))) = Some (int (Suc n))"
      using r by (intro int_value_safe) simp_all
    have f: "int_value (num_of_int (fact n)) = Some (fact n)" using Suc.prems by simp
    have "num_mul (num_of_int (int (Suc n))) (num_of_int (fact n)) =
        num_of_int (int (Suc n) * fact n)"
      using e f by (intro num_mul_int) simp_all
    also have "int (Suc n) * fact n = fact (Suc n)" by simp
    finally have m: "num_mul (num_of_int (int (Suc n))) (num_of_int (fact n)) =
        num_of_int (fact (Suc n))" .
    have "int (Suc n) - 1 = int n" by simp
    then show ?thesis using factorial_step(1) [OF r, of d'] ih m d by simp
  qed
qed

lemma factorial_23:
  assumes "22 \<le> d"
  shows "factorial d (num_of_int 23) = Inr (Double False 1097 1660001470424270)"
proof -
  have "factorial d (num_of_int (int 23)) = Inr (num_of_int (fact 23))"
    using assms by (intro factorial_rounded) (simp_all add: fact_exact)
  moreover have "(fact 23 :: int) = 25852016738884976640000" by (simp add: fact_numeral)
  ultimately show ?thesis by (simp add: fact23_double)
qed

lemma factorial_no_error:
  assumes "nonneg_whole n"
  shows "factorial d n \<noteq> Inl (Error m)" "factorial d n \<noteq> Inl (TypeError m)"
proof -
  have "(\<exists>v. factorial d n = Inr v) \<or>
      factorial d n = Inl (RangeError ''Maximum call stack size exceeded'')"
    using assms
  proof (induction d arbitrary: n)
    case 0
    then show ?case using nonneg_whole_not_lt [of n] by simp
  next
    case (Suc d)
    have lt: "\<not> num_lt n (Zero False)" using Suc.prems by (rule nonneg_whole_not_lt)
    show ?case
    proof (cases "num_eq n (Zero False) \<or> num_eq n (num_of_int 1)")
      case True
      then show ?thesis using lt by auto
    next
      case False
      then have "nonneg_whole (num_sub n (num_of_int 1))"
        using Suc.prems by (intro nonneg_whole_pred) simp_all
      from Suc.IH [OF this] show ?thesis using False lt by auto
    qed
  qed
  then show "factorial d n \<noteq> Inl (Error m)" "factorial d n \<noteq> Inl (TypeError m)" by auto
qed

lemma factorial_stuck:
  "factorial d (Double False 1076 2) = Inl (RangeError ''Maximum call stack size exceeded'')"
  by (induction d) (simp_all add: stuck_fields stuck_sub)


lemma factorial_errors:
  "factorial d n = Inl e \<Longrightarrow>
   e = Error ''Factorial not defined for negative numbers'' \<or>
   e = RangeError ''Maximum call stack size exceeded''"
  by (induction d arbitrary: n e) (auto split: if_splits sum.splits)

lemma factorial_whole:
  assumes "int_value n = Some i" "0 \<le> i" "i \<le> 2 ^ 53"
  shows "i - 1 \<le> int d \<Longrightarrow> \<exists>v. factorial d n = Inr v"
    and "int d < i - 1 \<Longrightarrow>
      factorial d n = Inl (RangeError ''Maximum call stack size exceeded'')"
proof -
  have le: "nat i \<le> 2 ^ 53" using assms(3) by (simp add: nat_le_iff)
  show "\<exists>v. factorial d n = Inr v" if h: "i - 1 \<le> int d"
  proof (cases "i = 0")
    case True
    then show ?thesis using assms(1) factorial_zero_value by blast
  next
    case False
    then have n: "n = num_of_int (int (nat i))" using assms by (simp add: int_value_pos)
    have "nat i - 1 \<le> d" using h by linarith
    then show ?thesis unfolding n using le by (rule factorial_returns [rotated])
  qed
  show "factorial d n = Inl (RangeError ''Maximum call stack size exceeded'')"
    if h: "int d < i - 1"
  proof -
    have p: "2 \<le> i" using h by linarith
    then have n: "n = num_of_int (int (nat i))" using assms by (simp add: int_value_pos)
    have "2 \<le> nat i" "d < nat i - 1" using h p by linarith+
    then show ?thesis unfolding n using le by (intro factorial_overflows)
  qed
qed


section \<open>Properties of property lookup\<close>

lemma obj_entry_chain: "obj_entry ob k = chain_entry ob k"
proof (induction ob rule: chain.induct)
  case (1 t c)
  then show ?case by (simp add: chain_entry_def has_own_def own_entry_def)
next
  case (2 ps c)
  then show ?case
    by (simp add: chain_entry_def has_own_def own_entry_def split: option.splits)
next
  case (3 ps p c)
  then show ?case
    by (simp add: chain_entry_def has_own_def own_entry_def split: option.splits)
qed

lemma and_then_returns [simp]: "and_then (returns x) f = f x"
  by (simp add: and_then_def returns_def)

lemma and_then_throws [simp]: "and_then (throws e) f = throws e"
  by (simp add: and_then_def throws_def)

lemma and_then_Inr: "m s = (Inr x, s1) \<Longrightarrow> and_then m f s = f x s1"
  by (simp add: and_then_def)

lemma and_then_Inl: "m s = (Inl e, s1) \<Longrightarrow> and_then m f s = (Inl e, s1)"
  by (simp add: and_then_def)

lemma ToObject_None_iff: "ToObject R v = None \<longleftrightarrow> nullish v"
  by (cases v) (simp_all add: ToObject_def nullish_def)

lemma GetV_nullish:
  "nullish v \<Longrightarrow> GetV R v k = throws (TypeError ''Cannot read properties of undefined or null'')"
  using ToObject_None_iff [of R v] by (simp add: GetV_def)

lemma GetV_read: "ToObject R v = Some ob \<Longrightarrow> GetV R v k = read_found (chain_entry ob k)"
  by (simp add: GetV_def obj_entry_chain)

lemma read_found_data:
  "f = NoEntry \<Longrightarrow> read_found f s = (Inr JUndefined, s)"
  "f = Entry NoGetter \<Longrightarrow> read_found f s = (Inr JUndefined, s)"
  "f = Entry (Data x) \<Longrightarrow> read_found f s = (Inr x, s)"
  by (simp_all add: read_found_def returns_def)

lemma read_found_throws:
  assumes "read_found f s = (Inl e, s')"
  shows "(\<exists>g. f = Entry (Getter g) \<and> g s = (Inl e, s')) \<or> (\<exists>t. f = Trap t \<and> t s = (Inl e, s'))"
proof (cases f)
  case NoEntry
  then show ?thesis using assms by (simp add: read_found_def returns_def)
next
  case (Entry sl)
  then show ?thesis using assms by (cases sl) (simp_all add: read_found_def returns_def)
next
  case (Trap t)
  then show ?thesis using assms by (simp add: read_found_def)
qed

lemma ToPropertyKey_primitive:
  "\<not> is_object v \<Longrightarrow> ToPropertyKey R v s = (Inr (primitive_key R v), s)"
  by (simp add: ToPropertyKey_def ToPrimitive_def and_then_def returns_def)

lemma ToPropertyKey_no_methods:
  assumes "ToObject R v = Some ob" "is_object v"
    and "chain_entry ob (KSym ''Symbol.toPrimitive'') = NoEntry"
    and "chain_entry ob (KStr ''toString'') = NoEntry"
    and "chain_entry ob (KStr ''valueOf'') = NoEntry"
  shows "ToPropertyKey R v s = (Inl (TypeError ''Cannot convert object to primitive value''), s)"
proof -
  have g: "GetV R v (KSym ''Symbol.toPrimitive'') = returns JUndefined"
    "GetV R v (KStr ''toString'') = returns JUndefined"
    "GetV R v (KStr ''valueOf'') = returns JUndefined"
    using assms by (simp_all add: GetV_read read_found_def)
  have c: "callee (JUndefined :: 'a jsval) = None" by (simp add: callee_def)
  have "OrdinaryToPrimitive R v = throws (TypeError ''Cannot convert object to primitive value'')"
    by (simp add: OrdinaryToPrimitive_def g call_for_primitive_def c)
  then have "ToPrimitive R v = throws (TypeError ''Cannot convert object to primitive value'')"
    using assms(2) by (simp add: ToPrimitive_def g nullish_def)
  then show ?thesis by (simp add: ToPropertyKey_def and_then_def throws_def)
qed

lemma getNestedProperty_nullish:
  "nullish obj \<Longrightarrow> getNestedProperty R obj prop s = (Inr JUndefined, s)"
  by (simp add: getNestedProperty_def returns_def)

lemma getNestedProperty_nested_nullish:
  assumes "GetV R obj (KStr ''nested'') s = (Inr v, s1)" "nullish v"
  shows "getNestedProperty R obj prop s = (Inr JUndefined, s1)"
proof -
  have "\<not> nullish obj" using assms(1) by (auto simp: GetV_nullish throws_def)
  then show ?thesis using assms by (simp add: getNestedProperty_def and_then_Inr returns_def)
qed

lemma getNestedProperty_reads:
  assumes "\<not> nullish obj" "GetV R obj (KStr ''nested'') s = (Inr v, s1)" "\<not> nullish v"
    "ToPropertyKey R prop s1 = (Inr k, s2)"
  shows "getNestedProperty R obj prop s = GetV R v k s2"
  using assms by (simp add: getNestedProperty_def and_then_Inr)

lemma getNestedProperty_throws_iff:
  "getNestedProperty R obj prop s = (Inl e, s') \<longleftrightarrow>
     \<not> nullish obj \<and>
     (GetV R obj (KStr ''nested'') s = (Inl e, s') \<or>
      (\<exists>v s1. GetV R obj (KStr ''nested'') s = (Inr v, s1) \<and> \<not> nullish v \<and>
         (ToPropertyKey R prop s1 = (Inl e, s') \<or>
          (\<exists>k s2. ToPropertyKey R prop s1 = (Inr k, s2) \<and> GetV R v k s2 = (Inl e, s')))))"
proof (cases "nullish obj")
  case True
  then show ?thesis by (simp add: getNestedProperty_nullish)
next
  case no: False
  obtain r s1 where g: "GetV R obj (KStr ''nested'') s = (r, s1)" by (cases "GetV R obj (KStr ''nested'') s")
  show ?thesis
  proof (cases r)
    case (Inl e1)
    then show ?thesis using no g by (auto simp: getNestedProperty_def and_then_Inl)
  next
    case (Inr v)
    note v = this
    show ?thesis
    proof (cases "nullish v")
      case True
      then show ?thesis
        using no g v getNestedProperty_nested_nullish [of R obj s v s1 "prop"] by auto
    next
      case nv: False
      obtain q s2 where t: "ToPropertyKey R prop s1 = (q, s2)" by (cases "ToPropertyKey R prop s1")
      show ?thesis
      proof (cases q)
        case (Inl e2)
        then show ?thesis
          using no g v nv t by (auto simp: getNestedProperty_def and_then_Inr and_then_Inl)
      next
        case (Inr k)
        then show ?thesis
          using no g v nv t by (auto simp: getNestedProperty_def and_then_Inr)
      qed
    qed
  qed
qed

lemma GetV_throws_from:
  assumes "ToObject R w = Some ob" "GetV R w k s = (Inl e, s')"
  shows "(\<exists>g. chain_entry ob k = Entry (Getter g) \<and> g s = (Inl e, s')) \<or>
         (\<exists>t. chain_entry ob k = Trap t \<and> t s = (Inl e, s'))"
  using assms read_found_throws [of "chain_entry ob k" s e s'] by (simp add: GetV_read)

lemma getNestedProperty_data:
  "ToObject R obj = Some ob \<Longrightarrow> chain_entry ob (KStr ''nested'') = NoEntry \<Longrightarrow>
     getNestedProperty R obj p s = (Inr JUndefined, s)"
  "ToObject R obj = Some ob \<Longrightarrow> chain_entry ob (KStr ''nested'') = Entry NoGetter \<Longrightarrow>
     getNestedProperty R obj p s = (Inr JUndefined, s)"
  "ToObject R obj = Some ob \<Longrightarrow> chain_entry ob (KStr ''nested'') = Entry (Data sub) \<Longrightarrow>
     nullish sub \<Longrightarrow> getNestedProperty R obj p s = (Inr JUndefined, s)"
  "ToObject R obj = Some ob \<Longrightarrow> chain_entry ob (KStr ''nested'') = Entry (Data sub) \<Longrightarrow>
     ToObject R sub = Some ob' \<Longrightarrow> \<not> is_object p \<Longrightarrow>
     getNestedProperty R obj p s = read_found (chain_entry ob' (primitive_key R p)) s"
proof -
  show "getNestedProperty R obj p s = (Inr JUndefined, s)"
    if a: "ToObject R obj = Some ob" and b: "chain_entry ob (KStr ''nested'') = NoEntry"
  proof -
    have "GetV R obj (KStr ''nested'') s = (Inr JUndefined, s)"
      using a b by (simp add: GetV_read read_found_data)
    then show ?thesis by (rule getNestedProperty_nested_nullish) (simp add: nullish_def)
  qed
  show "getNestedProperty R obj p s = (Inr JUndefined, s)"
    if a: "ToObject R obj = Some ob" and b: "chain_entry ob (KStr ''nested'') = Entry NoGetter"
  proof -
    have "GetV R obj (KStr ''nested'') s = (Inr JUndefined, s)"
      using a b by (simp add: GetV_read read_found_data)
    then show ?thesis by (rule getNestedProperty_nested_nullish) (simp add: nullish_def)
  qed
  show "getNestedProperty R obj p s = (Inr JUndefined, s)"
    if a: "ToObject R obj = Some ob" and b: "chain_entry ob (KStr ''nested'') = Entry (Data sub)"
      and c: "nullish sub"
  proof -
    have "GetV R obj (KStr ''nested'') s = (Inr sub, s)"
      using a b by (simp add: GetV_read read_found_data)
    then show ?thesis using c by (rule getNestedProperty_nested_nullish)
  qed
  show "getNestedProperty R obj p s = read_found (chain_entry ob' (primitive_key R p)) s"
    if a: "ToObject R obj = Some ob" and b: "chain_entry ob (KStr ''nested'') = Entry (Data sub)"
      and c: "ToObject R sub = Some ob'" and d: "\<not> is_object p"
  proof -
    have g: "GetV R obj (KStr ''nested'') s = (Inr sub, s)"
      using a b by (simp add: GetV_read read_found_data)
    have n: "\<not> nullish obj" "\<not> nullish sub"
      using a c ToObject_None_iff [of R obj] ToObject_None_iff [of R sub] by auto
    have "getNestedProperty R obj p s = GetV R sub (primitive_key R p) s"
      using n(1) g n(2) ToPropertyKey_primitive [OF d] by (rule getNestedProperty_reads)
    then show ?thesis using c by (simp add: GetV_read)
  qed
qed

lemma primitive_key_string [simp]: "primitive_key R (JStr name) = KStr name"
  by (simp add: primitive_key_def)

lemma not_object_string [simp]: "\<not> is_object (JStr name)"
  by (simp add: is_object_def)




section \<open>The objects of the examples\<close>

lemma test_objects:
  "ToObject R (JObj test_obj) = Some test_obj"
  "ToObject R (JObj test_nested) = Some test_nested"
  "chain_entry test_obj (KStr ''nested'') = Entry (Data (JObj test_nested))"
  "chain_entry test_nested (KStr ''foo'') = Entry (Data (JStr ''bar''))"
  "chain_entry test_nested (KStr ''baz'') = NoEntry"
  "own_entry test_nested (KStr ''constructor'') = NoEntry"
  "chain_entry test_nested (KStr ''constructor'') = Entry (Data ObjectFunction)"
  "chain_entry (literal []) (KStr ''nested'') = NoEntry"
  "chain_entry (literal [(''nested'', JNull)]) (KStr ''nested'') = Entry (Data JNull)"
  by (simp_all add: ToObject_def test_obj_def test_nested_def literal_def chain_entry_def
      has_own_def own_entry_def ObjectPrototype_def object_prototype_methods_def)

lemma more_test_objects:
  "ToObject bare_realm (JNum d) = Some (Object [] (Some (Object [] (Some ObjectPrototype) None)) None)"
  "chain_entry (Object [] (Some (Object [] (Some ObjectPrototype) None)) None) (KStr ''nested'')
     = NoEntry"
  "chain_entry (Object [] None None) k = NoEntry"
  "ToObject R (JObj ob) = Some ob"
  "chain_entry (Object [(KStr ''nested'', Getter g)] (Some ObjectPrototype) None) (KStr ''nested'')
     = Entry (Getter g)"
  "chain_entry (Object [(KStr ''foo'', Getter g)] (Some ObjectPrototype) None) (KStr ''foo'')
     = Entry (Getter g)"
  "chain_entry (literal [(''nested'', v)]) (KStr ''nested'') = Entry (Data v)"
  by (simp_all add: ToObject_def bare_realm_def chain_entry_def has_own_def own_entry_def
      ObjectPrototype_def object_prototype_methods_def literal_def)




section \<open>Claims about add and multiply\<close>

text \<open>
  Claim C7, as amended. \<^verbatim>\<open>add(a, b)\<close> and \<^verbatim>\<open>add(b, a)\<close> are always the same Number
  value. The comparison \<^verbatim>\<open>add(a, b) == add(b, a)\<close> holds exactly when the sum is not
  NaN, that is unless an operand is NaN or the operands are infinities of opposite
  sign; in particular it holds for all finite numbers. \<^verbatim>\<open>add(a, 0) == a\<close> holds
  exactly when \<open>a\<close> is not NaN.
\<close>

theorem add_commutes_zero_identity:
  "add a b = add b a \<and>
   (num_eq (add a b) (add b a) \<longleftrightarrow>
      \<not> (is_nan a \<or> is_nan b \<or> (is_inf a \<and> is_inf b \<and> sign a \<noteq> sign b))) \<and>
   (num_eq (add a (Zero False)) a \<longleftrightarrow> \<not> is_nan a)"
proof -
  have c: "add a b = add b a" by (simp add: add_def num_add_commute)
  have "num_eq (add a b) (add a b) \<longleftrightarrow> \<not> is_nan (add a b)" by (simp add: num_eq_def)
  then have e: "num_eq (add a b) (add b a) \<longleftrightarrow>
      \<not> (is_nan a \<or> is_nan b \<or> (is_inf a \<and> is_inf b \<and> sign a \<noteq> sign b))"
    using c by (simp add: add_def num_add_nan_iff)
  have "is_nan a \<Longrightarrow> \<not> num_eq (add a (Zero False)) a" by (simp add: num_eq_def)
  then have z: "num_eq (add a (Zero False)) a \<longleftrightarrow> \<not> is_nan a"
    using num_add_zero [of a] by (auto simp: add_def)
  from c e z show ?thesis by blast
qed

theorem add_commutes_zero_identity_witness:
  "add (num_of_int 2) (num_of_int 3) = add (num_of_int 3) (num_of_int 2) \<and>
   num_eq (add (num_of_int 2) (num_of_int 3)) (add (num_of_int 3) (num_of_int 2)) \<and>
   num_eq (add (num_of_int 2) (Zero False)) (num_of_int 2)"
proof -
  have "expo (num_of_int 2) \<noteq> 2047" "expo (num_of_int 3) \<noteq> 2047"
    by (simp_all add: num_of_int_safe)
  then have "\<not> is_nan (num_of_int 2)" "\<not> is_nan (num_of_int 3)" "\<not> is_inf (num_of_int 2)"
    by (simp_all add: finite_iff)
  then show ?thesis
    using add_commutes_zero_identity [of "num_of_int 2" "num_of_int 3"] by blast
qed

text \<open>
  Claim C7 as stated fails on NaN, which is a Number: \<^verbatim>\<open>add(NaN, 1) == add(1, NaN)\<close> and
  \<^verbatim>\<open>add(NaN, 0) == NaN\<close> are both false.
\<close>

theorem add_commutes_counterexample:
  "\<not> num_eq (add NaN (num_of_int 1)) (add (num_of_int 1) NaN) \<and>
   \<not> num_eq (add NaN (Zero False)) NaN"
  by (simp add: add_def num_add_def num_eq_def)

text \<open>
  Claim C6, as amended. \<^verbatim>\<open>multiply(a, b)\<close> and \<^verbatim>\<open>multiply(b, a)\<close> are always the same
  Number value. The comparison \<^verbatim>\<open>multiply(a, b) == multiply(b, a)\<close> holds exactly when
  the product is not NaN, that is unless an operand is NaN or the operands are a zero
  and an infinity; in particular it holds for all finite numbers.
  \<^verbatim>\<open>multiply(a, 0) == 0\<close> holds exactly when \<open>a\<close> is finite.
\<close>

theorem multiply_commutes_zero_annihilates:
  "multiply a b = multiply b a \<and>
   (num_eq (multiply a b) (multiply b a) \<longleftrightarrow>
      \<not> (is_nan a \<or> is_nan b \<or> (is_inf a \<and> is_zero b) \<or> (is_zero a \<and> is_inf b))) \<and>
   (num_eq (multiply a (Zero False)) (Zero False) \<longleftrightarrow> expo a \<noteq> 2047)"
proof -
  have c: "multiply a b = multiply b a" by (simp add: multiply_def num_mul_commute)
  have "num_eq (multiply a b) (multiply a b) \<longleftrightarrow> \<not> is_nan (multiply a b)"
    by (simp add: num_eq_def)
  then have e: "num_eq (multiply a b) (multiply b a) \<longleftrightarrow>
      \<not> (is_nan a \<or> is_nan b \<or> (is_inf a \<and> is_zero b) \<or> (is_zero a \<and> is_inf b))"
    using c by (simp add: multiply_def num_mul_nan_iff)
  have z: "num_eq (multiply a (Zero False)) (Zero False) \<longleftrightarrow> expo a \<noteq> 2047"
  proof (cases "expo a = 2047")
    case True
    then have "is_nan a \<or> is_inf a" by (auto simp: is_nan_def is_inf_def)
    then have "is_nan (multiply a (Zero False))" by (auto simp: multiply_def num_mul_nan_iff)
    with True show ?thesis by (simp add: num_eq_def)
  next
    case False
    then show ?thesis by (simp add: multiply_def num_mul_zero num_eq_def)
  qed
  from c e z show ?thesis by blast
qed

theorem multiply_commutes_zero_annihilates_witness:
  "multiply (num_of_int 3) (num_of_int 4) = multiply (num_of_int 4) (num_of_int 3) \<and>
   num_eq (multiply (num_of_int 3) (num_of_int 4)) (multiply (num_of_int 4) (num_of_int 3)) \<and>
   num_eq (multiply (num_of_int 3) (Zero False)) (Zero False)"
proof -
  have f: "expo (num_of_int 3) \<noteq> 2047" "expo (num_of_int 4) \<noteq> 2047"
    by (simp_all add: num_of_int_safe)
  then have "\<not> is_nan (num_of_int 3)" "\<not> is_nan (num_of_int 4)"
    "\<not> is_inf (num_of_int 3)" "\<not> is_inf (num_of_int 4)"
    by (simp_all add: finite_iff)
  then show ?thesis
    using f multiply_commutes_zero_annihilates [of "num_of_int 3" "num_of_int 4"] by blast
qed

text \<open>
  Claim C6 as stated fails on the Numbers that are not finite:
  \<^verbatim>\<open>multiply(Infinity, 0)\<close> is NaN, so \<^verbatim>\<open>multiply(Infinity, 0) == 0\<close> is false, and
  \<^verbatim>\<open>multiply(NaN, 1) == multiply(1, NaN)\<close> is false.
\<close>

theorem multiply_zero_counterexample:
  "\<not> num_eq (multiply (Infinity False) (Zero False)) (Zero False) \<and>
   \<not> num_eq (multiply NaN (num_of_int 1)) (multiply (num_of_int 1) NaN)"
  by (simp add: multiply_def num_mul_def num_eq_def)


section \<open>Claims about getValueOrDefault\<close>

text \<open>
  Claim C3. \<^verbatim>\<open>getValueOrDefault(value, defaultValue)\<close> returns \<open>defaultValue\<close> when
  \<open>value\<close> is \<^verbatim>\<open>null\<close> or \<^verbatim>\<open>undefined\<close>, and \<open>value\<close> itself for every other input,
  the falsy values \<^verbatim>\<open>0\<close>, \<^verbatim>\<open>''\<close> and \<^verbatim>\<open>false\<close> included.
\<close>

theorem getValueOrDefault_absent_only:
  "(v = JUndefined \<or> v = JNull \<longrightarrow> getValueOrDefault v d = d) \<and>
   (v \<noteq> JUndefined \<and> v \<noteq> JNull \<longrightarrow> getValueOrDefault v d = v) \<and>
   getValueOrDefault (JNum (Zero False)) d = JNum (Zero False) \<and>
   getValueOrDefault (JStr []) d = JStr [] \<and>
   getValueOrDefault (JBool False) d = JBool False"
  by (cases v) (simp_all add: getValueOrDefault_def nullish_def)

theorem getValueOrDefault_absent_only_witness:
  "getValueOrDefault JNull (JStr ''default'') = (JStr ''default'' :: unit jsval) \<and>
   getValueOrDefault JUndefined (JStr ''default'') = (JStr ''default'' :: unit jsval) \<and>
   getValueOrDefault (JNum (num_of_int 0)) (JStr ''default'') =
     (JNum (num_of_int 0) :: unit jsval) \<and>
   getValueOrDefault (JStr []) (JStr ''default'') = (JStr [] :: unit jsval)"
  using getValueOrDefault_absent_only [of "JNull :: unit jsval" "JStr ''default''"]
    getValueOrDefault_absent_only [of "JUndefined :: unit jsval" "JStr ''default''"]
    getValueOrDefault_absent_only [of "JNum (num_of_int 0) :: unit jsval" "JStr ''default''"]
    getValueOrDefault_absent_only [of "JStr [] :: unit jsval" "JStr ''default''"]
  by simp


section \<open>Claims about factorial\<close>

text \<open>
  Claim C10. \<^verbatim>\<open>factorial(n)\<close> throws the error with the message
  "Factorial not defined for negative numbers" for every Number \<open>n < 0\<close>, whether or
  not \<open>n\<close> is an integer, and whatever room the call stack has: the test \<open>n < 0\<close>
  comes first.
\<close>

theorem factorial_negative_any_number:
  "num_lt n (Zero False) \<Longrightarrow>
   factorial d n = Inl (Error ''Factorial not defined for negative numbers'')"
  by (rule factorial_throws)

text \<open>The Number \<open>-0.5\<close>, which is not an integer, and \<open>-Infinity\<close>.\<close>

theorem factorial_negative_any_number_witness:
  "int_value (Double True 1022 0) = None \<and>
   factorial 0 (Double True 1022 0) =
     Inl (Error ''Factorial not defined for negative numbers'') \<and>
   factorial 10000 (Infinity True) =
     Inl (Error ''Factorial not defined for negative numbers'')"
proof -
  have "num_lt (Double True 1022 0) (Zero False)" "num_lt (Infinity True) (Zero False)"
    by (simp_all add: num_lt_def is_nan_def mag_def Zero_def Infinity_def)
  moreover have "int_value (Double True 1022 0) = None"
    by (simp add: int_value_def units_def)
  ultimately show ?thesis
    using factorial_negative_any_number [of "Double True 1022 0" 0]
      factorial_negative_any_number [of "Infinity True" 10000]
    by simp
qed

text \<open>
  Claim C1, as amended. For every Number \<open>n\<close> that holds an integer \<open>i\<close>, and with
  room for \<open>d\<close> further frames on the call stack: when \<open>i < 0\<close>, \<^verbatim>\<open>factorial(n)\<close> throws
  the error with exactly the message "Factorial not defined for negative numbers";
  when \<open>i \<ge> 0\<close> it never throws that error, and the only error it can throw is the
  RangeError of a full call stack; and for \<open>0 \<le> i \<le> 2\<^sup>5\<^sup>3\<close> it throws the RangeError
  exactly when its \<open>i - 1\<close> nested calls do not fit, that is when \<open>d < i - 1\<close>.
\<close>

theorem factorial_fails_negative_or_stack:
  "int_value n = Some i \<Longrightarrow>
   (i < 0 \<longrightarrow> factorial d n = Inl (Error ''Factorial not defined for negative numbers'')) \<and>
   (0 \<le> i \<longrightarrow>
      (\<forall>e. factorial d n = Inl e \<longrightarrow> e = RangeError ''Maximum call stack size exceeded'')) \<and>
   (0 \<le> i \<and> i \<le> 2 ^ 53 \<longrightarrow>
      (factorial d n = Inl (RangeError ''Maximum call stack size exceeded'') \<longleftrightarrow>
       int d < i - 1))"
proof -
  assume iv: "int_value n = Some i"
  have a: "factorial d n = Inl (Error ''Factorial not defined for negative numbers'')"
    if "i < 0"
    using iv that by (intro factorial_throws int_value_neg)
  have b: "e = RangeError ''Maximum call stack size exceeded''"
    if "0 \<le> i" "factorial d n = Inl e" for e
  proof -
    have "nonneg_whole n" using iv that(1) by (rule int_value_nonneg)
    then have "factorial d n \<noteq> Inl (Error ''Factorial not defined for negative numbers'')"
      by (rule factorial_no_error)
    then show ?thesis using factorial_errors [OF that(2)] that(2) by blast
  qed
  have c: "factorial d n = Inl (RangeError ''Maximum call stack size exceeded'') \<longleftrightarrow>
      int d < i - 1" if r: "0 \<le> i" "i \<le> 2 ^ 53"
  proof (cases "int d < i - 1")
    case True
    then show ?thesis using factorial_whole(2) [OF iv r] by simp
  next
    case False
    then have "\<exists>v. factorial d n = Inr v" using factorial_whole(1) [OF iv r] by simp
    then show ?thesis using False by auto
  qed
  show ?thesis using a b c by blast
qed

theorem factorial_fails_negative_or_stack_witness:
  "int_value (Double True 1023 0) = Some (- 1) \<and>
   factorial 10000 (Double True 1023 0) =
     Inl (Error ''Factorial not defined for negative numbers'') \<and>
   int_value (num_of_int 5) = Some 5 \<and>
   factorial 4 (num_of_int 5) \<noteq> Inl (Error ''Factorial not defined for negative numbers'') \<and>
   factorial 4 (num_of_int 5) \<noteq> Inl (RangeError ''Maximum call stack size exceeded'') \<and>
   factorial 3 (num_of_int 5) = Inl (RangeError ''Maximum call stack size exceeded'')"
proof -
  note a = minus_one_value
  have b: "int_value (num_of_int 5) = Some 5" by (simp add: int_value_safe)
  have "(- 1 :: int) < 0 \<longrightarrow> factorial 10000 (Double True 1023 0) =
      Inl (Error ''Factorial not defined for negative numbers'')"
    using factorial_fails_negative_or_stack [OF a] by (rule conjunct1)
  then have c: "factorial 10000 (Double True 1023 0) =
      Inl (Error ''Factorial not defined for negative numbers'')"
    by simp
  have r: "(0 :: int) \<le> 5 \<and> (5 :: int) \<le> 2 ^ 53" by simp
  have "(0 :: int) \<le> 5 \<and> (5 :: int) \<le> 2 ^ 53 \<longrightarrow>
      (factorial 4 (num_of_int 5) = Inl (RangeError ''Maximum call stack size exceeded'') \<longleftrightarrow>
       int 4 < 5 - 1)"
    using factorial_fails_negative_or_stack [OF b, of 4] by blast
  with r have e: "factorial 4 (num_of_int 5) \<noteq>
      Inl (RangeError ''Maximum call stack size exceeded'')"
    by simp
  have "(0 :: int) \<le> 5 \<longrightarrow> (\<forall>e. factorial 4 (num_of_int 5) = Inl e \<longrightarrow>
      e = RangeError ''Maximum call stack size exceeded'')"
    using factorial_fails_negative_or_stack [OF b, of 4] by blast
  then have d: "factorial 4 (num_of_int 5) \<noteq>
      Inl (Error ''Factorial not defined for negative numbers'')"
    by auto
  have "(0 :: int) \<le> 5 \<and> (5 :: int) \<le> 2 ^ 53 \<longrightarrow>
      (factorial 3 (num_of_int 5) = Inl (RangeError ''Maximum call stack size exceeded'') \<longleftrightarrow>
       int 3 < 5 - 1)"
    using factorial_fails_negative_or_stack [OF b, of 3] by blast
  with r have f: "factorial 3 (num_of_int 5) =
      Inl (RangeError ''Maximum call stack size exceeded'')"
    by simp
  from a c b d e f show ?thesis by (intro conjI)
qed

text \<open>
  Claim C1 as stated fails: a negative argument is not the only condition under which
  \<^verbatim>\<open>factorial\<close> fails. \<^verbatim>\<open>factorial(20000)\<close> throws a RangeError when the stack has room
  for 10000 further frames, and \<^verbatim>\<open>factorial(9007199254740996)\<close> throws it whatever room
  the stack has.
\<close>

theorem factorial_range_error_counterexample:
  "int_value (num_of_int 20000) = Some 20000 \<and>
   factorial 10000 (num_of_int 20000) =
     Inl (RangeError ''Maximum call stack size exceeded'') \<and>
   int_value (Double False 1076 2) = Some 9007199254740996 \<and>
   (\<forall>d. factorial d (Double False 1076 2) =
     Inl (RangeError ''Maximum call stack size exceeded''))"
proof -
  have a: "int_value (num_of_int 20000) = Some 20000" by (simp add: int_value_safe)
  have "factorial 10000 (num_of_int (int 20000)) =
      Inl (RangeError ''Maximum call stack size exceeded'')"
    by (rule factorial_overflows) simp_all
  then have b: "factorial 10000 (num_of_int 20000) =
      Inl (RangeError ''Maximum call stack size exceeded'')"
    by simp
  from a b stuck_value factorial_stuck show ?thesis by blast
qed

text \<open>
  Claim C2, as amended. For every Number \<open>n\<close> that holds an integer \<open>i\<close>, and with
  room for \<open>d\<close> further frames on the call stack: \<^verbatim>\<open>factorial(n)\<close> returns 1 when \<open>i\<close>
  is 0 or 1; for \<open>2 \<le> i \<le> 2\<^sup>5\<^sup>3\<close> with \<open>i - 1 \<le> d\<close> it returns the Number product
  \<^verbatim>\<open>n * factorial(n - 1)\<close>; and for \<open>0 \<le> i \<le> 22\<close> with \<open>i - 1 \<le> d\<close> the Number returned
  holds exactly the mathematical factorial of \<open>i\<close>. (The tests' \<^verbatim>\<open>factorial(0)\<close>,
  \<^verbatim>\<open>factorial(1)\<close> and \<^verbatim>\<open>factorial(5) == 120\<close> are the witness.)
\<close>

theorem factorial_exact_to_22:
  "int_value n = Some i \<Longrightarrow>
   (i = 0 \<or> i = 1 \<longrightarrow> factorial d n = Inr (num_of_int 1)) \<and>
   (2 \<le> i \<and> i \<le> 2 ^ 53 \<and> i - 1 \<le> int d \<longrightarrow>
      (\<exists>v. factorial (d - 1) (num_sub n (num_of_int 1)) = Inr v \<and>
           factorial d n = Inr (num_mul n v))) \<and>
   (0 \<le> i \<and> i \<le> 22 \<and> i - 1 \<le> int d \<longrightarrow>
      (\<exists>v. factorial d n = Inr v \<and> int_value v = Some (fact (nat i))))"
proof -
  assume iv: "int_value n = Some i"
  have pos: "n = num_of_int i" if "0 < i" using iv that by (rule int_value_pos)
  have b0: "factorial d n = Inr (num_of_int 1)" if "i = 0"
    using iv that by (simp add: factorial_zero_value)
  have b1: "factorial d n = Inr (num_of_int 1)" if "i = 1"
    using pos that factorial_base(2) by simp
  have st: "\<exists>v. factorial (d - 1) (num_sub n (num_of_int 1)) = Inr v \<and>
      factorial d n = Inr (num_mul n v)" if "2 \<le> i" "i \<le> 2 ^ 53" "i - 1 \<le> int d"
  proof -
    have n: "n = num_of_int i" using pos that by simp
    have "d \<noteq> 0" using that(1,3) by auto
    then obtain d0 where d: "d = Suc d0" by (cases d) auto
    have "nat (i - 1) \<le> 2 ^ 53" using that by (simp add: nat_le_iff)
    moreover have "nat (i - 1) - 1 \<le> d0" using that d by linarith
    ultimately obtain v where "factorial d0 (num_of_int (int (nat (i - 1)))) = Inr v"
      using factorial_returns by blast
    then have v: "factorial d0 (num_of_int (i - 1)) = Inr v" using that by simp
    then show ?thesis
      unfolding n d using factorial_step(1) [OF that(1,2), of d0]
      by (simp add: num_sub_one [OF that(1,2)])
  qed
  have ex: "\<exists>v. factorial d n = Inr v \<and> int_value v = Some (fact (nat i))"
    if "0 \<le> i" "i \<le> 22" "i - 1 \<le> int d"
  proof (cases "i = 0")
    case True
    then show ?thesis using b0 by (simp add: int_value_safe)
  next
    case False
    then have n: "n = num_of_int (int (nat i))" using pos that by simp
    have le: "nat i \<le> 22" using that by simp
    have dd: "nat i - 1 \<le> d" using that by linarith
    have "factorial d (num_of_int (int (nat i))) = Inr (num_of_int (fact (nat i)))"
      using le dd by (intro factorial_rounded) (simp_all add: fact_exact)
    then show ?thesis unfolding n using le by (simp add: fact_exact)
  qed
  show ?thesis using b0 b1 st ex by blast
qed

theorem factorial_exact_to_22_witness:
  "factorial 0 (num_of_int 0) = Inr (num_of_int 1) \<and>
   factorial 0 (num_of_int 1) = Inr (num_of_int 1) \<and>
   (\<exists>v. factorial 3 (num_sub (num_of_int 5) (num_of_int 1)) = Inr v \<and>
        factorial 4 (num_of_int 5) = Inr (num_mul (num_of_int 5) v)) \<and>
   (\<exists>v. factorial 4 (num_of_int 5) = Inr v \<and> int_value v = Some 120)"
proof -
  have a: "int_value (num_of_int 0) = Some 0" "int_value (num_of_int 1) = Some 1"
    "int_value (num_of_int 5) = Some 5"
    by (simp_all add: int_value_safe)
  have "fact (nat 5) = (120 :: int)" by (simp add: fact_numeral)
  then show ?thesis
    using factorial_exact_to_22 [OF a(1), of 0] factorial_exact_to_22 [OF a(2), of 0]
      factorial_exact_to_22 [OF a(3), of 4]
    by simp
qed

text \<open>
  Claim C2 as stated fails from \<open>n = 23\<close> on, where the product is rounded to 53
  significant bits: \<^verbatim>\<open>factorial(23)\<close> returns the Number 25852016738884978212864, and
  the factorial of 23 is 25852016738884976640000.
\<close>

theorem factorial_23_counterexample:
  "int_value (num_of_int 23) = Some 23 \<and>
   factorial 22 (num_of_int 23) = Inr (Double False 1097 1660001470424270) \<and>
   int_value (Double False 1097 1660001470424270) = Some 25852016738884978212864 \<and>
   fact 23 = (25852016738884976640000 :: int)"
  by (simp add: factorial_23 fact23_value int_value_safe fact_numeral)

text \<open>
  Claim C5, as amended. For every Number \<open>n\<close> that holds an integer \<open>i\<close> with
  \<open>0 \<le> i \<le> 2\<^sup>5\<^sup>3\<close>, and with room for \<open>d\<close> further frames on the call stack:
  \<^verbatim>\<open>factorial(n)\<close> returns a value exactly when \<open>i - 1 \<le> d\<close>, and throws the RangeError
  of a full call stack otherwise; and for \<open>i \<ge> 2\<close> the recursive call is on the
  Number that holds \<open>i - 1\<close>, so the recursion descends one by one towards the base
  case.
\<close>

theorem factorial_terminates_within_stack:
  "int_value n = Some i \<Longrightarrow> 0 \<le> i \<Longrightarrow> i \<le> 2 ^ 53 \<Longrightarrow>
   ((\<exists>v. factorial d n = Inr v) \<longleftrightarrow> i - 1 \<le> int d) \<and>
   (int d < i - 1 \<longrightarrow> factorial d n = Inl (RangeError ''Maximum call stack size exceeded'')) \<and>
   (2 \<le> i \<longrightarrow> int_value (num_sub n (num_of_int 1)) = Some (i - 1))"
proof -
  assume iv: "int_value n = Some i" and r: "0 \<le> i" "i \<le> 2 ^ 53"
  have s: "int_value (num_sub n (num_of_int 1)) = Some (i - 1)" if "2 \<le> i"
  proof -
    have "n = num_of_int i" using iv that by (intro int_value_pos) simp_all
    then have "num_sub n (num_of_int 1) = num_of_int (i - 1)"
      using that r by (simp add: num_sub_one)
    then show ?thesis using that r by (simp add: int_value_safe)
  qed
  note w = factorial_whole [OF iv r, of d]
  have o: "factorial d n = Inl (RangeError ''Maximum call stack size exceeded'')"
    if "int d < i - 1"
    using that by (rule w(2))
  have "(\<exists>v. factorial d n = Inr v) \<longleftrightarrow> i - 1 \<le> int d"
  proof (cases "i - 1 \<le> int d")
    case True
    then show ?thesis using w(1) by simp
  next
    case False
    then have "factorial d n = Inl (RangeError ''Maximum call stack size exceeded'')"
      using o by simp
    then show ?thesis using False by simp
  qed
  then show ?thesis using s o by blast
qed

theorem factorial_terminates_within_stack_witness:
  "int_value (num_of_int 5) = Some 5 \<and>
   (\<exists>v. factorial 4 (num_of_int 5) = Inr v) \<and>
   factorial 3 (num_of_int 5) = Inl (RangeError ''Maximum call stack size exceeded'') \<and>
   int_value (num_sub (num_of_int 5) (num_of_int 1)) = Some 4"
proof -
  have a: "int_value (num_of_int 5) = Some 5" by (simp add: int_value_safe)
  show ?thesis
    using a factorial_terminates_within_stack [OF a, of 4]
      factorial_terminates_within_stack [OF a, of 3]
    by simp
qed

text \<open>
  Claim C5 as stated fails above \<open>2\<^sup>5\<^sup>3\<close>, where \<^verbatim>\<open>n - 1\<close> is rounded: for the integer
  \<open>n = 9007199254740996\<close> (\<open>2\<^sup>5\<^sup>3 + 4\<close>) the difference \<^verbatim>\<open>n - 1\<close> is \<open>n\<close> again, the
  argument never decreases, and the call ends with a RangeError whatever room the
  call stack has.
\<close>

theorem factorial_stuck_counterexample:
  "int_value (Double False 1076 2) = Some 9007199254740996 \<and>
   num_sub (Double False 1076 2) (num_of_int 1) = Double False 1076 2 \<and>
   (\<forall>d. factorial d (Double False 1076 2) =
     Inl (RangeError ''Maximum call stack size exceeded''))"
  by (simp add: stuck_value stuck_sub factorial_stuck)


section \<open>Claims about getNestedProperty\<close>

text \<open>
  Claim C4, as amended. \<^verbatim>\<open>getNestedProperty(obj, p)\<close> returns \<^verbatim>\<open>undefined\<close> when \<open>obj\<close>
  is \<^verbatim>\<open>null\<close> or \<^verbatim>\<open>undefined\<close>; when \<open>obj\<close> has no property \<^verbatim>\<open>nested\<close>, own or inherited;
  when the value of its data property \<^verbatim>\<open>nested\<close> is \<^verbatim>\<open>null\<close> or \<^verbatim>\<open>undefined\<close>; and when
  that value has no property, own or inherited, under the key of the primitive \<open>p\<close>.
  Otherwise it returns the value of that property, own or inherited: the value of a
  data property, and what its getter gives for an accessor. In these cases no error
  is raised and the program state is left as it was.
\<close>

theorem getNestedProperty_own_or_inherited:
  "(nullish obj \<longrightarrow> getNestedProperty R obj p s = (Inr JUndefined, s)) \<and>
   (ToObject R obj = Some ob \<and> chain_entry ob (KStr ''nested'') = NoEntry \<longrightarrow>
      getNestedProperty R obj p s = (Inr JUndefined, s)) \<and>
   (ToObject R obj = Some ob \<and> chain_entry ob (KStr ''nested'') = Entry (Data sub) \<and>
    nullish sub \<longrightarrow>
      getNestedProperty R obj p s = (Inr JUndefined, s)) \<and>
   (ToObject R obj = Some ob \<and> chain_entry ob (KStr ''nested'') = Entry (Data sub) \<and>
    ToObject R sub = Some ob' \<and> \<not> is_object p \<and>
    chain_entry ob' (primitive_key R p) = NoEntry \<longrightarrow>
      getNestedProperty R obj p s = (Inr JUndefined, s)) \<and>
   (ToObject R obj = Some ob \<and> chain_entry ob (KStr ''nested'') = Entry (Data sub) \<and>
    ToObject R sub = Some ob' \<and> \<not> is_object p \<and>
    chain_entry ob' (primitive_key R p) = Entry (Data x) \<longrightarrow>
      getNestedProperty R obj p s = (Inr x, s)) \<and>
   (ToObject R obj = Some ob \<and> chain_entry ob (KStr ''nested'') = Entry (Data sub) \<and>
    ToObject R sub = Some ob' \<and> \<not> is_object p \<and>
    chain_entry ob' (primitive_key R p) = Entry (Getter g) \<longrightarrow>
      getNestedProperty R obj p s = g s)"
  by (simp add: getNestedProperty_nullish getNestedProperty_data read_found_data)
    (simp add: read_found_def)

text \<open>
  The calls of \<^verbatim>\<open>tests/index.test.js\<close>, and a missing name, a \<^verbatim>\<open>null\<close> under \<^verbatim>\<open>nested\<close>
  and \<^verbatim>\<open>getNestedProperty({ nested: { get foo() { return 'got' } } }, 'foo')\<close>.
\<close>

theorem getNestedProperty_own_or_inherited_witness:
  "getNestedProperty bare_realm (JObj test_obj) (JStr ''foo'') () = (Inr (JStr ''bar''), ()) \<and>
   getNestedProperty bare_realm JNull (JStr ''foo'') () = (Inr JUndefined, ()) \<and>
   getNestedProperty bare_realm (JObj (literal [])) (JStr ''foo'') () = (Inr JUndefined, ()) \<and>
   getNestedProperty bare_realm (JObj test_obj) (JStr ''baz'') () = (Inr JUndefined, ()) \<and>
   getNestedProperty bare_realm (JObj (literal [(''nested'', JNull)])) (JStr ''foo'') () =
     (Inr JUndefined, ()) \<and>
   getNestedProperty bare_realm
     (JObj (literal [(''nested'',
        JObj (Object [(KStr ''foo'', Getter (returns (JStr ''got'')))] (Some ObjectPrototype) None))]))
     (JStr ''foo'') () = (Inr (JStr ''got''), ())"
proof -
  have a: "getNestedProperty bare_realm (JObj test_obj) (JStr ''foo'') () = (Inr (JStr ''bar''), ())"
    using getNestedProperty_own_or_inherited
      [where obj = "JObj test_obj" and R = bare_realm and ob = test_obj and s = "()"
        and sub = "JObj test_nested" and ob' = test_nested and p = "JStr ''foo''"
        and x = "JStr ''bar''"]
    by (simp add: test_objects)
  have b: "getNestedProperty bare_realm JNull (JStr ''foo'') () = (Inr JUndefined, ())"
    using getNestedProperty_own_or_inherited
      [where obj = JNull and R = bare_realm and s = "()" and p = "JStr ''foo''"]
    by (simp add: nullish_def)
  have c: "getNestedProperty bare_realm (JObj (literal [])) (JStr ''foo'') () =
      (Inr JUndefined, ())"
    using getNestedProperty_own_or_inherited
      [where obj = "JObj (literal [])" and R = bare_realm and s = "()" and p = "JStr ''foo''"
        and ob = "literal []"]
    by (simp add: test_objects ToObject_def)
  have d: "getNestedProperty bare_realm (JObj test_obj) (JStr ''baz'') () = (Inr JUndefined, ())"
    using getNestedProperty_own_or_inherited
      [where obj = "JObj test_obj" and R = bare_realm and ob = test_obj and s = "()"
        and sub = "JObj test_nested" and ob' = test_nested and p = "JStr ''baz''"]
    by (simp add: test_objects)
  have e: "getNestedProperty bare_realm (JObj (literal [(''nested'', JNull)]))
      (JStr ''foo'') () = (Inr JUndefined, ())"
    using getNestedProperty_own_or_inherited
      [where obj = "JObj (literal [(''nested'', JNull)])" and R = bare_realm and s = "()"
        and p = "JStr ''foo''" and ob = "literal [(''nested'', JNull)]" and sub = JNull]
    by (simp add: test_objects ToObject_def nullish_def)
  have f: "getNestedProperty bare_realm
      (JObj (literal [(''nested'',
         JObj (Object [(KStr ''foo'', Getter (returns (JStr ''got'')))] (Some ObjectPrototype) None))]))
      (JStr ''foo'') () = (Inr (JStr ''got''), ())"
    using getNestedProperty_own_or_inherited
      [where obj = "JObj (literal [(''nested'',
          JObj (Object [(KStr ''foo'', Getter (returns (JStr ''got'')))] (Some ObjectPrototype) None))])"
        and R = bare_realm and s = "()" and p = "JStr ''foo''"
        and ob = "literal [(''nested'',
          JObj (Object [(KStr ''foo'', Getter (returns (JStr ''got'')))] (Some ObjectPrototype) None))]"
        and sub = "JObj (Object [(KStr ''foo'', Getter (returns (JStr ''got'')))]
          (Some ObjectPrototype) None)"
        and ob' = "Object [(KStr ''foo'', Getter (returns (JStr ''got'')))] (Some ObjectPrototype) None"
        and g = "returns (JStr ''got'')"]
    by (simp add: more_test_objects returns_def)
  from a b c d e f show ?thesis by (intro conjI)
qed

text \<open>
  Claim C4 as stated fails for the names \<^verbatim>\<open>Object.prototype\<close> defines: the structure
  \<^verbatim>\<open>{ foo: 'bar' }\<close> has no own entry named \<^verbatim>\<open>constructor\<close>, and
  \<^verbatim>\<open>getNestedProperty({ nested: { foo: 'bar' } }, 'constructor')\<close> returns the function
  \<^verbatim>\<open>Object\<close>, not \<^verbatim>\<open>undefined\<close>.
\<close>

theorem getNestedProperty_inherited_counterexample:
  "own_entry (test_nested :: unit jsobj) (KStr ''constructor'') = NoEntry \<and>
   getNestedProperty bare_realm (JObj test_obj) (JStr ''constructor'') () =
     (Inr ObjectFunction, ()) \<and>
   (ObjectFunction :: unit jsval) \<noteq> JUndefined"
proof -
  have "getNestedProperty bare_realm (JObj test_obj) (JStr ''constructor'') () =
      read_found (chain_entry (test_nested :: unit jsobj) (KStr ''constructor'')) ()"
    using getNestedProperty_data(4)
      [where obj = "JObj test_obj" and R = bare_realm and ob = test_obj
        and sub = "JObj test_nested" and ob' = test_nested and p = "JStr ''constructor''"]
    by (simp add: test_objects)
  then show ?thesis
    by (simp add: test_objects read_found_data ObjectFunction_def builtin_def)
qed

text \<open>
  Claim C9, as amended. \<^verbatim>\<open>getNestedProperty(obj, p)\<close> returns \<^verbatim>\<open>undefined\<close> when \<open>obj\<close>
  is \<^verbatim>\<open>null\<close> or \<^verbatim>\<open>undefined\<close>, when \<open>obj\<close> is a primitive whose wrapper has no property
  \<^verbatim>\<open>nested\<close>, and when the read of \<^verbatim>\<open>nested\<close> gives \<^verbatim>\<open>null\<close> or \<^verbatim>\<open>undefined\<close>. It
  throws an error exactly when one of the three steps it runs throws that error: the
  read of \<^verbatim>\<open>nested\<close>, the conversion of \<open>p\<close> to a property key, or the read of that
  key. A read throws only what a getter or a Proxy trap it runs throws. The conversion
  of a primitive \<open>p\<close> never throws; the conversion of an object without
  \<^verbatim>\<open>Symbol.toPrimitive\<close>, \<^verbatim>\<open>toString\<close> and \<^verbatim>\<open>valueOf\<close> throws a TypeError.
\<close>

theorem getNestedProperty_throws_what_it_runs:
  "(nullish obj \<longrightarrow> getNestedProperty R obj p s = (Inr JUndefined, s)) \<and>
   (\<not> is_object obj \<and> ToObject R obj = Some ob \<and>
    chain_entry ob (KStr ''nested'') = NoEntry \<longrightarrow>
      getNestedProperty R obj p s = (Inr JUndefined, s)) \<and>
   (GetV R obj (KStr ''nested'') s = (Inr v, s1) \<and> nullish v \<longrightarrow>
      getNestedProperty R obj p s = (Inr JUndefined, s1)) \<and>
   (getNestedProperty R obj p s = (Inl e, s') \<longleftrightarrow>
      \<not> nullish obj \<and>
      (GetV R obj (KStr ''nested'') s = (Inl e, s') \<or>
       (\<exists>v s1. GetV R obj (KStr ''nested'') s = (Inr v, s1) \<and> \<not> nullish v \<and>
          (ToPropertyKey R p s1 = (Inl e, s') \<or>
           (\<exists>k s2. ToPropertyKey R p s1 = (Inr k, s2) \<and> GetV R v k s2 = (Inl e, s')))))) \<and>
   (ToObject R w = Some ob' \<and> GetV R w k s = (Inl e, s') \<longrightarrow>
      (\<exists>g. chain_entry ob' k = Entry (Getter g) \<and> g s = (Inl e, s')) \<or>
      (\<exists>t. chain_entry ob' k = Trap t \<and> t s = (Inl e, s'))) \<and>
   (\<not> is_object p \<longrightarrow> ToPropertyKey R p s = (Inr (primitive_key R p), s)) \<and>
   (is_object p \<and> ToObject R p = Some pb \<and>
    chain_entry pb (KSym ''Symbol.toPrimitive'') = NoEntry \<and>
    chain_entry pb (KStr ''toString'') = NoEntry \<and>
    chain_entry pb (KStr ''valueOf'') = NoEntry \<longrightarrow>
      ToPropertyKey R p s = (Inl (TypeError ''Cannot convert object to primitive value''), s))"
proof -
  have a: "nullish obj \<longrightarrow> getNestedProperty R obj p s = (Inr JUndefined, s)"
    by (simp add: getNestedProperty_nullish)
  have b: "\<not> is_object obj \<and> ToObject R obj = Some ob \<and>
      chain_entry ob (KStr ''nested'') = NoEntry \<longrightarrow>
      getNestedProperty R obj p s = (Inr JUndefined, s)"
    by (simp add: getNestedProperty_data)
  have c: "GetV R obj (KStr ''nested'') s = (Inr v, s1) \<and> nullish v \<longrightarrow>
      getNestedProperty R obj p s = (Inr JUndefined, s1)"
    by (simp add: getNestedProperty_nested_nullish)
  note d = getNestedProperty_throws_iff [of R obj p s e s']
  have f: "ToObject R w = Some ob' \<and> GetV R w k s = (Inl e, s') \<longrightarrow>
      (\<exists>g. chain_entry ob' k = Entry (Getter g) \<and> g s = (Inl e, s')) \<or>
      (\<exists>t. chain_entry ob' k = Trap t \<and> t s = (Inl e, s'))"
    using GetV_throws_from [of R w ob' k s e s'] by blast
  have g: "\<not> is_object p \<longrightarrow> ToPropertyKey R p s = (Inr (primitive_key R p), s)"
    by (simp add: ToPropertyKey_primitive)
  have h: "is_object p \<and> ToObject R p = Some pb \<and>
      chain_entry pb (KSym ''Symbol.toPrimitive'') = NoEntry \<and>
      chain_entry pb (KStr ''toString'') = NoEntry \<and>
      chain_entry pb (KStr ''valueOf'') = NoEntry \<longrightarrow>
      ToPropertyKey R p s = (Inl (TypeError ''Cannot convert object to primitive value''), s)"
    using ToPropertyKey_no_methods [of R p pb s] by blast
  from a b c d f g h show ?thesis by (intro conjI)
qed

text \<open>
  The calls \<^verbatim>\<open>getNestedProperty(5, 'foo')\<close>,
  \<^verbatim>\<open>getNestedProperty({ nested: null }, Object.create(null))\<close>,
  \<^verbatim>\<open>getNestedProperty({ nested: { foo: 'bar' } }, Object.create(null))\<close> and
  \<^verbatim>\<open>getNestedProperty({ get nested() { throw new Error('boom') } }, 'foo')\<close>.
\<close>

theorem getNestedProperty_throws_what_it_runs_witness:
  "getNestedProperty bare_realm (JNum (num_of_int 5)) (JStr ''foo'') () = (Inr JUndefined, ()) \<and>
   getNestedProperty bare_realm (JObj (literal [(''nested'', JNull)])) (JObj (Object [] None None)) ()
     = (Inr JUndefined, ()) \<and>
   getNestedProperty bare_realm (JObj test_obj) (JObj (Object [] None None)) () =
     (Inl (TypeError ''Cannot convert object to primitive value''), ()) \<and>
   getNestedProperty bare_realm
     (JObj (Object [(KStr ''nested'', Getter (throws (Error ''boom'')))] (Some ObjectPrototype) None))
     (JStr ''foo'') () = (Inl (Error ''boom''), ()) \<and>
   ToPropertyKey bare_realm (JStr ''foo'') () = (Inr (KStr ''foo''), ()) \<and>
   (\<exists>g. chain_entry
      (Object [(KStr ''nested'', Getter (throws (Error ''boom'')))] (Some ObjectPrototype) None)
      (KStr ''nested'') = Entry (Getter g) \<and> g () = (Inl (Error ''boom''), ()))"
proof -
  have a: "getNestedProperty bare_realm (JNum (num_of_int 5)) (JStr ''foo'') () =
      (Inr JUndefined, ())"
    using getNestedProperty_throws_what_it_runs
      [where obj = "JNum (num_of_int 5)" and R = bare_realm and s = "()" and p = "JStr ''foo''"
        and ob = "Object [] (Some (Object [] (Some ObjectPrototype) None)) None"]
    by (simp add: more_test_objects is_object_def)
  have n: "GetV bare_realm (JObj (literal [(''nested'', JNull)])) (KStr ''nested'') () =
      (Inr JNull, ())"
    by (simp add: GetV_read [OF more_test_objects(4)] test_objects read_found_data)
  have b: "getNestedProperty bare_realm (JObj (literal [(''nested'', JNull)]))
      (JObj (Object [] None None)) () = (Inr JUndefined, ())"
    using getNestedProperty_throws_what_it_runs
      [where obj = "JObj (literal [(''nested'', JNull)])" and R = bare_realm and s = "()"
        and p = "JObj (Object [] None None)" and v = JNull and ?s1.0 = "()"] n
    by (simp add: nullish_def)
  have k: "ToPropertyKey bare_realm (JObj (Object [] None None)) () =
      (Inl (TypeError ''Cannot convert object to primitive value''), ())"
    using getNestedProperty_throws_what_it_runs
      [where p = "JObj (Object [] None None)" and R = bare_realm and s = "()"
        and pb = "Object [] None None"]
    by (simp add: more_test_objects is_object_def)
  have t: "GetV bare_realm (JObj test_obj) (KStr ''nested'') () = (Inr (JObj test_nested), ())"
    by (simp add: GetV_read [OF more_test_objects(4)] test_objects read_found_data)
  have c: "getNestedProperty bare_realm (JObj test_obj) (JObj (Object [] None None)) () =
      (Inl (TypeError ''Cannot convert object to primitive value''), ())"
    using getNestedProperty_throws_what_it_runs
      [where obj = "JObj test_obj" and R = bare_realm and s = "()"
        and p = "JObj (Object [] None None)"
        and e = "TypeError ''Cannot convert object to primitive value''" and s' = "()"] t k
    by (auto simp: nullish_def)
  have "GetV bare_realm
      (JObj (Object [(KStr ''nested'', Getter (throws (Error ''boom'')))] (Some ObjectPrototype) None))
      (KStr ''nested'') () = (Inl (Error ''boom''), ())"
    by (simp add: GetV_read [OF more_test_objects(4)] more_test_objects read_found_def throws_def)
  note gv = this
  have g: "\<exists>g. chain_entry
      (Object [(KStr ''nested'', Getter (throws (Error ''boom'')))] (Some ObjectPrototype) None)
      (KStr ''nested'') = Entry (Getter g) \<and> g () = (Inl (Error ''boom''), ())"
    using getNestedProperty_throws_what_it_runs
      [where w = "JObj (Object [(KStr ''nested'', Getter (throws (Error ''boom'')))]
            (Some ObjectPrototype) None)"
        and ob' = "Object [(KStr ''nested'', Getter (throws (Error ''boom'')))]
            (Some ObjectPrototype) None"
        and R = bare_realm and s = "()" and k = "KStr ''nested''"
        and e = "Error ''boom''" and s' = "()"] gv
    by (simp add: more_test_objects)
  from gv have d: "getNestedProperty bare_realm
      (JObj (Object [(KStr ''nested'', Getter (throws (Error ''boom'')))] (Some ObjectPrototype) None))
      (JStr ''foo'') () = (Inl (Error ''boom''), ())"
    using getNestedProperty_throws_what_it_runs
      [where obj = "JObj (Object [(KStr ''nested'', Getter (throws (Error ''boom'')))]
            (Some ObjectPrototype) None)"
        and R = bare_realm and s = "()" and p = "JStr ''foo''"
        and e = "Error ''boom''" and s' = "()"]
    by (simp add: nullish_def)
  have f: "ToPropertyKey bare_realm (JStr ''foo'') () = (Inr (KStr ''foo''), ())"
    using getNestedProperty_throws_what_it_runs
      [where p = "JStr ''foo''" and R = bare_realm and s = "()"]
    by simp
  from a b c d f g show ?thesis by (intro conjI)
qed

text \<open>
  Claim C9 as stated fails:
  \<^verbatim>\<open>getNestedProperty({ get nested() { throw new Error('boom') } }, 'foo')\<close> throws the
  getter's error,
  \<^verbatim>\<open>getNestedProperty({ nested: { foo: 'bar' } }, Object.create(null))\<close> throws a
  TypeError, and
  \<^verbatim>\<open>getNestedProperty(new Proxy({}, { get() { throw new Error('trap') } }), 'foo')\<close>
  throws the trap's error.
\<close>

theorem getNestedProperty_getter_counterexample:
  "getNestedProperty bare_realm
     (JObj (Object [(KStr ''nested'', Getter (throws (Error ''boom'')))] (Some ObjectPrototype) None))
     (JStr ''foo'') () = (Inl (Error ''boom''), ()) \<and>
   getNestedProperty bare_realm (JObj test_obj) (JObj (Object [] None None)) () =
     (Inl (TypeError ''Cannot convert object to primitive value''), ()) \<and>
   getNestedProperty bare_realm (JObj (Proxy (\<lambda>k. throws (Error ''trap'')) None)) (JStr ''foo'') ()
     = (Inl (Error ''trap''), ())"
proof -
  have "GetV bare_realm
      (JObj (Object [(KStr ''nested'', Getter (throws (Error ''boom'')))] (Some ObjectPrototype) None))
      (KStr ''nested'') () = (Inl (Error ''boom''), ())"
    by (simp add: GetV_read [OF more_test_objects(4)] more_test_objects read_found_def throws_def)
  then have a: "getNestedProperty bare_realm
      (JObj (Object [(KStr ''nested'', Getter (throws (Error ''boom'')))] (Some ObjectPrototype) None))
      (JStr ''foo'') () = (Inl (Error ''boom''), ())"
    by (simp add: getNestedProperty_throws_iff nullish_def)
  have t: "GetV bare_realm (JObj test_obj) (KStr ''nested'') () = (Inr (JObj test_nested), ())"
    by (simp add: GetV_read [OF more_test_objects(4)] test_objects read_found_data)
  have k: "ToPropertyKey bare_realm (JObj (Object [] None None)) () =
      (Inl (TypeError ''Cannot convert object to primitive value''), ())"
    by (rule ToPropertyKey_no_methods [OF more_test_objects(4)])
      (simp_all add: more_test_objects is_object_def)
  from t k have b: "getNestedProperty bare_realm (JObj test_obj) (JObj (Object [] None None)) () =
      (Inl (TypeError ''Cannot convert object to primitive value''), ())"
    by (auto simp: getNestedProperty_throws_iff nullish_def)
  have "GetV bare_realm (JObj (Proxy (\<lambda>k. throws (Error ''trap'')) None)) (KStr ''nested'') ()
      = (Inl (Error ''trap''), ())"
    by (simp add: GetV_read [OF more_test_objects(4)] chain_entry_def has_own_def own_entry_def
        read_found_def throws_def)
  then have c: "getNestedProperty bare_realm (JObj (Proxy (\<lambda>k. throws (Error ''trap'')) None))
      (JStr ''foo'') () = (Inl (Error ''trap''), ())"
    by (simp add: getNestedProperty_throws_iff nullish_def)
  from a b c show ?thesis by (intro conjI)
qed


section \<open>Determinism\<close>




end
